theory Spec2Isabelle
  imports Main "HOL-Library.Word" "HOL-Library.AList" "HOL-Library.Log_Nat"
begin

unbundle bit_operations_syntax

section \<open>Python values and exceptions\<close>

text \<open>
  The repository is one Python class, \<open>GenericJsonProtobufSerializer\<close>
  (src/generic_json_protobuf_serializer.py). Its methods call Python's \<open>json\<close> module and
  \<open>google.protobuf\<close> (\<open>json_format.ParseDict\<close>, \<open>json_format.MessageToDict\<close>,
  \<open>Struct.SerializeToString\<close>, \<open>Struct.ParseFromString\<close>). Those libraries are
  not part of the repository; sections 2 to 5 model the behaviour of the calls the class makes,
  section 6 is the class itself, method by method.

  Exceptions are values: every \<open>raise\<close> of the class and every exception a library call can
  let through is a constructor of \<open>error\<close>. \<open>ParseError\<close> is
  \<open>google.protobuf.json_format.ParseError\<close>; \<open>JSONDecodeError\<close> is
  \<open>json.JSONDecodeError\<close>; \<open>DecodeError\<close> is \<open>google.protobuf.message.DecodeError\<close>.
\<close>

datatype error =
    ValueError
  | ParseError
  | JSONDecodeError
  | FileNotFoundError
  | DecodeError
  | OverflowError
  | UnicodeEncodeError
  | UnicodeDecodeError
  | OSError
  | RecursionError
  | AttributeError

text \<open>
  A Python \<open>float\<close> and the \<open>double\<close> of a protobuf \<open>number_value\<close> are IEEE-754
  binary64 values, kept here as their 64-bit pattern. A Python \<open>str\<close> is kept as the byte
  string of its UTF-8 encoding (a lone surrogate as its three-byte generalised form), a
  \<open>bytes\<close> object as a byte string; both are \<open>string\<close>.
\<close>

type_synonym double = "64 word"

text \<open>
  What \<open>json.load\<close> returns: \<open>None\<close>, \<open>bool\<close>, \<open>int\<close>, \<open>float\<close>, \<open>str\<close>,
  \<open>list\<close> and \<open>dict\<close> with \<open>str\<close> keys. A \<open>dict\<close> is an association list in
  insertion order.
\<close>

datatype json =
    JNull
  | JBool bool
  | JInt int
  | JFloat double
  | JStr string
  | JList "json list"
  | JDict "(string \<times> json) list"

section \<open>Floating-point values\<close>

definition float_nan :: double where
  "float_nan = 0x7FF8000000000000"

definition float_inf :: double where
  "float_inf = 0x7FF0000000000000"

definition float_neg_inf :: double where
  "float_neg_inf = 0xFFF0000000000000"

definition isinf :: "double \<Rightarrow> bool" where
  "isinf d = (d AND 0x7FFFFFFFFFFFFFFF = 0x7FF0000000000000)"

definition isnan :: "double \<Rightarrow> bool" where
  "isnan d = (d AND 0x7FF0000000000000 = 0x7FF0000000000000 \<and> d AND 0x000FFFFFFFFFFFFF \<noteq> 0)"

definition isfinite :: "double \<Rightarrow> bool" where
  "isfinite d = (d AND 0x7FF0000000000000 \<noteq> 0x7FF0000000000000)"

text \<open>Round a non-negative rational \<open>a / b\<close> (\<open>0 \<le> a\<close>, \<open>0 < b\<close>) to the nearest integer, ties to even.\<close>

definition round_half_even :: "int \<Rightarrow> int \<Rightarrow> int" where
  "round_half_even a b =
     (let q = a div b; r = a mod b
      in if b < 2 * r \<or> (2 * r = b \<and> odd q) then q + 1 else q)"

text \<open>
  The bit pattern (sign bit clear) of the binary64 value nearest to \<open>num / den\<close>, ties to
  even, as \<open>float(...)\<close> computes it; a magnitude beyond the largest finite value gives the
  pattern of infinity. \<open>e\<close> is the binary exponent of \<open>num / den\<close>, at least the
  exponent \<open>-1022\<close> of the subnormal range; \<open>q\<close> is the significand scaled to 53 bits.
\<close>

definition round_double :: "int \<Rightarrow> int \<Rightarrow> int" where
  "round_double num den =
     (if num = 0 then 0
      else
        let e0 = bitlen num - bitlen den;
            e1 = (if 0 \<le> e0
                  then (if den * 2 ^ nat e0 \<le> num then e0 else e0 - 1)
                  else (if den \<le> num * 2 ^ nat (- e0) then e0 else e0 - 1));
            e = max e1 (- 1022);
            sh = 52 - e;
            q = (if 0 \<le> sh then round_half_even (num * 2 ^ nat sh) den
                 else round_half_even num (den * 2 ^ nat (- sh)))
        in min ((e + 1022) * 2 ^ 52 + q) 0x7FF0000000000000)"

definition sign_bit :: "bool \<Rightarrow> double" where
  "sign_bit neg = (if neg then 0x8000000000000000 else 0)"

text \<open>
  Setting a \<open>double\<close> field from a Python \<open>int\<close> converts it with \<open>float(i)\<close>, which
  raises \<open>OverflowError\<close> when the integer is too large.
\<close>

definition float_of_int :: "int \<Rightarrow> error + double" where
  "float_of_int i =
     (let bits = round_double \<bar>i\<bar> 1
      in if 0x7FF0000000000000 \<le> bits then Inl OverflowError
         else Inr (sign_bit (i < 0) OR word_of_int bits))"

section \<open>The \<open>json\<close> module: \<open>json.loads\<close>\<close>

text \<open>
  \<open>json.loads\<close> and \<open>json.load\<close> with their default arguments, following
  \<open>json/decoder.py\<close> and \<open>json/scanner.py\<close> of CPython: \<open>WHITESPACE\<close>,
  \<open>NUMBER_RE\<close>, \<open>scanstring\<close>, \<open>JSONObject\<close>, \<open>JSONArray\<close>, \<open>scan_once\<close>
  and \<open>JSONDecoder.decode\<close>. The position an error is reported at and its message are
  left out; an index into the text is the suffix that starts there.
\<close>

definition is_ws :: "char \<Rightarrow> bool" where
  "is_ws c = (c = CHR '' '' \<or> c = CHR 0x09 \<or> c = CHR 0x0A \<or> c = CHR 0x0D)"

definition skip_ws :: "string \<Rightarrow> string" where
  "skip_ws s = dropWhile is_ws s"

definition is_digit :: "char \<Rightarrow> bool" where
  "is_digit c = (c \<in> set ''0123456789'')"

definition int_of_digits :: "string \<Rightarrow> int" where
  "int_of_digits ds = foldl (\<lambda>a c. 10 * a + (int (of_char c) - 48)) 0 ds"

definition hex_value :: "char \<Rightarrow> nat option" where
  "hex_value c =
     (let n = of_char c
      in if 48 \<le> n \<and> n \<le> 57 then Some (n - 48)
         else if 97 \<le> n \<and> n \<le> 102 then Some (n - 87)
         else if 65 \<le> n \<and> n \<le> 70 then Some (n - 55)
         else None)"

text \<open>\<open>_decode_uXXXX\<close>: the four hexadecimal digits after \<open>\u\<close>.\<close>

definition decode_uXXXX :: "string \<Rightarrow> nat option" where
  "decode_uXXXX s =
     (case map hex_value (take 4 s) of
        [Some a, Some b, Some c, Some d] \<Rightarrow> Some (((a * 16 + b) * 16 + c) * 16 + d)
      | _ \<Rightarrow> None)"

text \<open>\<open>chr(uni)\<close>, as the bytes of its UTF-8 encoding.\<close>

definition chr :: "nat \<Rightarrow> string" where
  "chr u =
     (if u < 0x80 then [char_of u]
      else if u < 0x800 then [char_of (0xC0 + u div 64), char_of (0x80 + u mod 64)]
      else if u < 0x10000 then
        [char_of (0xE0 + u div 4096), char_of (0x80 + u div 64 mod 64), char_of (0x80 + u mod 64)]
      else
        [char_of (0xF0 + u div 262144), char_of (0x80 + u div 4096 mod 64),
         char_of (0x80 + u div 64 mod 64), char_of (0x80 + u mod 64)])"

text \<open>The \<open>BACKSLASH\<close> table of one-character escapes.\<close>

definition BACKSLASH :: "char \<Rightarrow> char option" where
  "BACKSLASH c =
     (if c = CHR 0x22 then Some (CHR 0x22)
      else if c = CHR 0x5C then Some (CHR 0x5C)
      else if c = CHR ''/'' then Some (CHR ''/'')
      else if c = CHR ''b'' then Some (CHR 0x08)
      else if c = CHR ''f'' then Some (CHR 0x0C)
      else if c = CHR ''n'' then Some (CHR 0x0A)
      else if c = CHR ''r'' then Some (CHR 0x0D)
      else if c = CHR ''t'' then Some (CHR 0x09)
      else None)"

definition str_cons :: "string \<Rightarrow> error + (string \<times> string) \<Rightarrow> error + (string \<times> string)" where
  "str_cons chunk r = (case r of Inl e \<Rightarrow> Inl e | Inr (str, rest) \<Rightarrow> Inr (chunk @ str, rest))"

text \<open>
  \<open>scanstring(s, end)\<close> with \<open>strict=True\<close>, called just after the opening quote: the
  decoded string and the text after the closing quote. A control character, an unknown
  escape, a bad \<open>\uXXXX\<close> and a missing closing quote raise \<open>JSONDecodeError\<close>. A high
  surrogate followed by \<open>\u\<close> and a low surrogate is one character.
\<close>

fun scanstring :: "string \<Rightarrow> error + (string \<times> string)" where
  "scanstring [] = Inl JSONDecodeError"
| "scanstring (c # cs) =
     (if c = CHR 0x22 then Inr ([], cs)
      else if c = CHR 0x5C then
        (case cs of
           [] \<Rightarrow> Inl JSONDecodeError
         | esc # cs' \<Rightarrow>
             if esc = CHR ''u'' then
               (case decode_uXXXX cs' of
                  None \<Rightarrow> Inl JSONDecodeError
                | Some uni \<Rightarrow>
                    if 0xD800 \<le> uni \<and> uni \<le> 0xDBFF \<and> take 2 (drop 4 cs') = [CHR 0x5C, CHR ''u''] then
                      (case decode_uXXXX (drop 6 cs') of
                         None \<Rightarrow> Inl JSONDecodeError
                       | Some uni2 \<Rightarrow>
                           if 0xDC00 \<le> uni2 \<and> uni2 \<le> 0xDFFF
                           then str_cons (chr (0x10000 + ((uni - 0xD800) * 1024 + (uni2 - 0xDC00))))
                                  (scanstring (drop 10 cs'))
                           else str_cons (chr uni) (scanstring (drop 4 cs')))
                    else str_cons (chr uni) (scanstring (drop 4 cs')))
             else
               (case BACKSLASH esc of
                  None \<Rightarrow> Inl JSONDecodeError
                | Some ch \<Rightarrow> str_cons [ch] (scanstring cs')))
      else if of_char c < (0x20 :: nat) then Inl JSONDecodeError
      else str_cons [c] (scanstring cs))"

text \<open>
  \<open>NUMBER_RE = (-?(?:0|[1-9][0-9]*))(\.[0-9]+)?([eE][-+]?[0-9]+)?\<close>, matched at the
  start of the text: the three groups (an absent group is empty) and the text after the
  match, or \<open>None\<close> when the integer part does not match.
\<close>

definition match_integer :: "string \<Rightarrow> (string \<times> string) option" where
  "match_integer s =
     (let sign = (if s \<noteq> [] \<and> hd s = CHR ''-'' then ''-'' else []);
          s1 = drop (length sign) s
      in case s1 of
           [] \<Rightarrow> None
         | d # s2 \<Rightarrow>
             if d = CHR ''0'' then Some (sign @ [d], s2)
             else if is_digit d then Some (sign @ d # takeWhile is_digit s2, dropWhile is_digit s2)
             else None)"

definition match_frac :: "string \<Rightarrow> string \<times> string" where
  "match_frac s =
     (case s of
        c # d # s' \<Rightarrow>
          if c = CHR ''.'' \<and> is_digit d
          then (c # d # takeWhile is_digit s', dropWhile is_digit s')
          else ([], s)
      | _ \<Rightarrow> ([], s))"

definition match_exp :: "string \<Rightarrow> string \<times> string" where
  "match_exp s =
     (case s of
        [] \<Rightarrow> ([], s)
      | c # s1 \<Rightarrow>
          if c = CHR ''e'' \<or> c = CHR ''E'' then
            (let sign = (if s1 \<noteq> [] \<and> (hd s1 = CHR ''-'' \<or> hd s1 = CHR ''+'') then [hd s1] else []);
                 s2 = drop (length sign) s1
             in if s2 \<noteq> [] \<and> is_digit (hd s2)
                then (c # sign @ takeWhile is_digit s2, dropWhile is_digit s2)
                else ([], s))
          else ([], s))"

definition match_number :: "string \<Rightarrow> ((string \<times> string \<times> string) \<times> string) option" where
  "match_number s =
     (case match_integer s of
        None \<Rightarrow> None
      | Some (integer, s1) \<Rightarrow>
          (let (frac', s2) = match_frac s1; (exp', s3) = match_exp s2
           in Some ((integer, frac', exp'), s3)))"

text \<open>
  \<open>parse_int = int\<close> on the integer group. \<open>int\<close> refuses a decimal string of more
  digits than \<open>sys.get_int_max_str_digits()\<close>, 4300 unless it was changed, with a plain
  \<open>ValueError\<close>. (\<open>float\<close> has no such limit.)
\<close>

definition int_max_str_digits :: int where
  "int_max_str_digits = 4300"

definition parse_int :: "string \<Rightarrow> error + int" where
  "parse_int integer =
     (let neg = (integer \<noteq> [] \<and> hd integer = CHR ''-'');
          ds = (if neg then tl integer else integer)
      in if int_max_str_digits < int (length ds) then Inl ValueError
         else Inr (if neg then - int_of_digits ds else int_of_digits ds))"

text \<open>
  \<open>parse_float = float\<close> on \<open>integer + frac + exp\<close>: the literal denotes
  \<open>N * 10 ^ k\<close>, with \<open>N\<close> the digits of the integer and fraction groups and \<open>k\<close> the
  exponent less the number of fraction digits, and \<open>float\<close> rounds it to the nearest
  binary64 value (infinity when it is too large).
\<close>

definition parse_float :: "string \<Rightarrow> string \<Rightarrow> string \<Rightarrow> double" where
  "parse_float integer frac' exp' =
     (let neg = (integer \<noteq> [] \<and> hd integer = CHR ''-'');
          idigits = (if neg then tl integer else integer);
          fdigits = tl frac';
          e1 = tl exp';
          ex = (if e1 \<noteq> [] \<and> hd e1 = CHR ''-'' then - int_of_digits (tl e1)
                else if e1 \<noteq> [] \<and> hd e1 = CHR ''+'' then int_of_digits (tl e1)
                else int_of_digits e1);
          N = int_of_digits (idigits @ fdigits);
          k = ex - int (length fdigits)
      in sign_bit neg OR
         word_of_int (if 0 \<le> k then round_double (N * 10 ^ nat k) 1
                      else round_double N (10 ^ nat (- k))))"

text \<open>\<open>dict(pairs)\<close>: a later pair with a key already present replaces its value.\<close>

definition dict :: "(string \<times> json) list \<Rightarrow> (string \<times> json) list" where
  "dict pairs = foldl (\<lambda>d (k, v). AList.update k v d) [] pairs"

text \<open>
  The branches of \<open>scan_once\<close> that call nothing recursive: a string; then, in the
  source's order, \<open>null\<close>, \<open>true\<close>, \<open>false\<close>, a number (an \<open>int\<close> when it has
  neither fraction nor exponent, a \<open>float\<close> otherwise), and the constants \<open>NaN\<close>,
  \<open>Infinity\<close> and \<open>-Infinity\<close> that \<open>parse_constant\<close> accepts by default.
  \<open>StopIteration\<close> of \<open>scan_once\<close> reaches the caller of \<open>json.loads\<close> as
  \<open>JSONDecodeError\<close> ("Expecting value") on every path, so it is that error here.
\<close>

definition scan_string :: "string \<Rightarrow> error + (json \<times> string)" where
  "scan_string s = (case scanstring s of Inl e \<Rightarrow> Inl e | Inr (str, s') \<Rightarrow> Inr (JStr str, s'))"

definition scan_number :: "string \<Rightarrow> (error + (json \<times> string)) option" where
  "scan_number s =
     (case match_number s of
        None \<Rightarrow> None
      | Some ((integer, frac', exp'), s') \<Rightarrow>
          if frac' \<noteq> [] \<or> exp' \<noteq> [] then Some (Inr (JFloat (parse_float integer frac' exp'), s'))
          else
            (case parse_int integer of
               Inl e \<Rightarrow> Some (Inl e)
             | Inr i \<Rightarrow> Some (Inr (JInt i, s'))))"

definition scan_literal :: "string \<Rightarrow> error + (json \<times> string)" where
  "scan_literal s =
     (if take 4 s = ''null'' then Inr (JNull, drop 4 s)
      else if take 4 s = ''true'' then Inr (JBool True, drop 4 s)
      else if take 5 s = ''false'' then Inr (JBool False, drop 5 s)
      else
        (case scan_number s of
           Some r \<Rightarrow> r
         | None \<Rightarrow>
             if take 3 s = ''NaN'' then Inr (JFloat float_nan, drop 3 s)
             else if take 8 s = ''Infinity'' then Inr (JFloat float_inf, drop 8 s)
             else if take 9 s = ''-Infinity'' then Inr (JFloat float_neg_inf, drop 9 s)
             else Inl JSONDecodeError))"

text \<open>
  The steps of \<open>JSONObject\<close> and \<open>JSONArray\<close> around their calls of \<open>scan_once\<close>.
  \<open>object_start\<close>: after \<open>{\<close>, either the empty object (\<open>None\<close> and the text after
  \<open>}\<close>) or the opening quote of the first key. \<open>object_key\<close>: the key, the colon and the
  white space around it. \<open>object_delimiter\<close>: after a value, \<open>}\<close> ends the object
  (\<open>False\<close>), a comma must be followed by the opening quote of the next key (\<open>True\<close>).
  \<open>array_delimiter\<close>: after a value, \<open>]\<close> ends the array, a comma continues it.
\<close>

definition object_start :: "string \<Rightarrow> error + (string option)" where
  "object_start s =
     (case skip_ws s of
        [] \<Rightarrow> Inl JSONDecodeError
      | nextchar # rest \<Rightarrow>
          if nextchar = CHR ''}'' then Inr None
          else if nextchar \<noteq> CHR 0x22 then Inl JSONDecodeError
          else Inr (Some rest))"

definition object_key :: "string \<Rightarrow> error + (string \<times> string)" where
  "object_key s =
     (case scanstring s of
        Inl e \<Rightarrow> Inl e
      | Inr (key, s1) \<Rightarrow>
          (case skip_ws s1 of
             [] \<Rightarrow> Inl JSONDecodeError
           | colon # s2 \<Rightarrow>
               if colon \<noteq> CHR '':'' then Inl JSONDecodeError else Inr (key, skip_ws s2)))"

definition object_delimiter :: "string \<Rightarrow> error + (bool \<times> string)" where
  "object_delimiter s =
     (case skip_ws s of
        [] \<Rightarrow> Inl JSONDecodeError
      | nextchar # s1 \<Rightarrow>
          if nextchar = CHR ''}'' then Inr (False, s1)
          else if nextchar \<noteq> CHR '','' then Inl JSONDecodeError
          else
            (case skip_ws s1 of
               [] \<Rightarrow> Inl JSONDecodeError
             | quote # s2 \<Rightarrow> if quote \<noteq> CHR 0x22 then Inl JSONDecodeError else Inr (True, s2)))"

definition array_delimiter :: "string \<Rightarrow> error + (bool \<times> string)" where
  "array_delimiter s =
     (case skip_ws s of
        [] \<Rightarrow> Inl JSONDecodeError
      | nextchar # s1 \<Rightarrow>
          if nextchar = CHR '']'' then Inr (False, s1)
          else if nextchar \<noteq> CHR '','' then Inl JSONDecodeError
          else Inr (True, skip_ws s1))"

text \<open>
  \<open>scan_once\<close> returns the value at the start of the text and the text after it.
  For \<open>{\<close> and \<open>[\<close> it does what \<open>JSONObject\<close> and \<open>JSONArray\<close> do before their
  loops (the empty object and the empty array); \<open>JSONObject_pairs\<close> and
  \<open>JSONArray_values\<close> are their \<open>while True\<close> loops, the first entered just after the
  opening quote of a key, both with the pairs or values read so far.

  The scanner enters a recursive call for every \<open>{\<close> and every \<open>[\<close>, before it looks at
  what follows, and the interpreter raises \<open>RecursionError\<close> when no nested call is left:
  \<open>depth\<close> is the number of nested calls still allowed. The first argument only makes the
  recursion structural: it bounds the number of calls of the three functions, and a bound
  above twice the length of the text is never used up (\<open>scan_once_bound\<close> below).
\<close>

fun scan_once :: "nat \<Rightarrow> nat \<Rightarrow> string \<Rightarrow> error + (json \<times> string)"
  and JSONObject_pairs ::
    "nat \<Rightarrow> nat \<Rightarrow> string \<Rightarrow> (string \<times> json) list \<Rightarrow> error + (json \<times> string)"
  and JSONArray_values :: "nat \<Rightarrow> nat \<Rightarrow> string \<Rightarrow> json list \<Rightarrow> error + (json \<times> string)"
where
  "scan_once 0 depth s = Inl RecursionError"
| "scan_once (Suc n) depth s =
     (if s = [] then Inl JSONDecodeError
      else if hd s = CHR 0x22 then scan_string (tl s)
      else if hd s = CHR ''{'' then
        (if depth = 0 then Inl RecursionError
         else
           (case object_start (tl s) of
              Inl e \<Rightarrow> Inl e
            | Inr None \<Rightarrow> Inr (JDict (dict []), tl (skip_ws (tl s)))
            | Inr (Some s1) \<Rightarrow> JSONObject_pairs n (depth - 1) s1 []))
      else if hd s = CHR ''['' then
        (if depth = 0 then Inl RecursionError
         else if skip_ws (tl s) \<noteq> [] \<and> hd (skip_ws (tl s)) = CHR '']''
         then Inr (JList [], tl (skip_ws (tl s)))
         else JSONArray_values n (depth - 1) (skip_ws (tl s)) [])
      else scan_literal s)"
| "JSONObject_pairs 0 depth s pairs = Inl RecursionError"
| "JSONObject_pairs (Suc n) depth s pairs =
     (case object_key s of
        Inl e \<Rightarrow> Inl e
      | Inr (key, s2) \<Rightarrow>
          (case scan_once n depth s2 of
             Inl e \<Rightarrow> Inl e
           | Inr (value, s3) \<Rightarrow>
               (case object_delimiter s3 of
                  Inl e \<Rightarrow> Inl e
                | Inr (more, s5) \<Rightarrow>
                    if more then JSONObject_pairs n depth s5 (pairs @ [(key, value)])
                    else Inr (JDict (dict (pairs @ [(key, value)])), s5))))"
| "JSONArray_values 0 depth s values = Inl RecursionError"
| "JSONArray_values (Suc n) depth s values =
     (case scan_once n depth s of
        Inl e \<Rightarrow> Inl e
      | Inr (value, s1) \<Rightarrow>
          (case array_delimiter s1 of
             Inl e \<Rightarrow> Inl e
           | Inr (more, s2) \<Rightarrow>
               if more then JSONArray_values n depth s2 (values @ [value])
               else Inr (JList (values @ [value]), s2)))"

text \<open>
  \<open>JSONDecoder().decode(s)\<close> with \<open>depth\<close> nested calls allowed: skip white space, scan
  one value, skip white space, and raise \<open>JSONDecodeError\<close> ("Extra data") unless the text
  ends there.
\<close>

definition JSONDecoder_decode :: "nat \<Rightarrow> string \<Rightarrow> error + json" where
  "JSONDecoder_decode depth s =
     (case scan_once (2 * length s + 2) depth (skip_ws s) of
        Inl e \<Rightarrow> Inl e
      | Inr (obj, rest) \<Rightarrow> if skip_ws rest \<noteq> [] then Inl JSONDecodeError else Inr obj)"

text \<open>
  \<open>json.loads(s)\<close> is \<open>JSONDecoder().decode(s)\<close> under the recursion limit of the
  interpreter. \<open>sys.getrecursionlimit()\<close> is 1000 unless it was changed; the frames in use
  when \<open>json.loads\<close> is called come off it, so the nesting at which Python stops depends
  on the caller and is a few levels below the number taken here. No statement below depends
  on the number.
\<close>

definition recursion_limit :: nat where
  "recursion_limit = 1000"

definition json_loads :: "string \<Rightarrow> error + json" where
  "json_loads s = JSONDecoder_decode recursion_limit s"

section \<open>\<open>google.protobuf.Struct\<close> and \<open>json_format\<close>\<close>

text \<open>
  The messages of \<open>google/protobuf/struct.proto\<close>: a \<open>Struct\<close> is its map
  \<open>fields\<close> from strings to \<open>Value\<close>s, kept in insertion order; a \<open>Value\<close> is the
  oneof \<open>kind\<close>, possibly not set; a \<open>ListValue\<close> is its repeated field \<open>values\<close>.
\<close>

datatype Value =
    KindNotSet
  | null_value
  | number_value double
  | string_value string
  | bool_value bool
  | struct_value "(string \<times> Value) list"
  | list_value "Value list"

type_synonym Struct = "(string \<times> Value) list"

text \<open>
  Well-formed UTF-8 (the Unicode standard's table of byte sequences). A Python \<open>str\<close> with
  a lone surrogate has no UTF-8 encoding: a protobuf string field refuses it, and a text
  file or a wire string with such bytes does not decode.
\<close>

definition byte_in :: "nat \<Rightarrow> nat \<Rightarrow> char \<Rightarrow> bool" where
  "byte_in lo hi c = (lo \<le> of_char c \<and> of_char c \<le> hi)"

fun valid_utf8 :: "string \<Rightarrow> bool" where
  "valid_utf8 [] = True"
| "valid_utf8 (c # cs) =
     (if byte_in 0x00 0x7F c then valid_utf8 cs
      else if byte_in 0xC2 0xDF c then
        (case cs of c1 # r \<Rightarrow> byte_in 0x80 0xBF c1 \<and> valid_utf8 r | _ \<Rightarrow> False)
      else if byte_in 0xE0 0xEF c then
        (case cs of
           c1 # c2 # r \<Rightarrow>
             byte_in (if c = CHR 0xE0 then 0xA0 else 0x80) (if c = CHR 0xED then 0x9F else 0xBF) c1 \<and>
             byte_in 0x80 0xBF c2 \<and> valid_utf8 r
         | _ \<Rightarrow> False)
      else if byte_in 0xF0 0xF4 c then
        (case cs of
           c1 # c2 # c3 # r \<Rightarrow>
             byte_in (if c = CHR 0xF0 then 0x90 else 0x80) (if c = CHR 0xF4 then 0x8F else 0xBF) c1 \<and>
             byte_in 0x80 0xBF c2 \<and> byte_in 0x80 0xBF c3 \<and> valid_utf8 r
         | _ \<Rightarrow> False)
      else False)"

declare valid_utf8.simps [simp del]

text \<open>
  \<open>json_format.ParseDict(js_dict, Struct())\<close>. \<open>_ConvertStructMessage\<close> raises
  \<open>ParseError\<close> ("Struct must be in a dict") unless the value is a \<open>dict\<close>, and converts
  the value of every key into \<open>message.fields[key]\<close>. \<open>_ConvertValueMessage\<close> goes by the
  Python type: a \<open>dict\<close> into \<open>struct_value\<close>, a \<open>list\<close> into \<open>list_value\<close>, \<open>None\<close>
  into \<open>null_value\<close>, a \<open>bool\<close>, a \<open>str\<close>, and an \<open>int\<close> or \<open>float\<close> assigned to
  \<open>number_value\<close>. It does not look at the number: a \<open>float\<close> is stored as it is, NaN
  and the infinities included. The assignments raise what the field setters raise: an
  \<open>int\<close> beyond the range of a double and a string that cannot be encoded in UTF-8.

  The parser counts the messages it is inside of and raises \<open>ParseError\<close> ("Message too
  deep") beyond \<open>max_recursion_depth\<close>, 100 for \<open>ParseDict\<close> as the class calls it. The
  \<open>Struct\<close> given is at depth 1; a \<open>Value\<close> is one deeper than the message it is a field
  of, and the \<open>Struct\<close> or \<open>ListValue\<close> in a \<open>Value\<close> one deeper again. So maps nested
  50 deep convert and maps nested 51 deep do not. The first argument of the three functions
  is the depth of the message whose fields are being converted. (Releases of the library
  before the count was extended to these three messages raise \<open>RecursionError\<close> on deeper
  nesting instead.)
\<close>

definition max_recursion_depth :: nat where
  "max_recursion_depth = 100"

fun ConvertValueMessage :: "nat \<Rightarrow> json \<Rightarrow> error + Value"
  and ConvertStructFields :: "nat \<Rightarrow> (string \<times> json) list \<Rightarrow> error + (string \<times> Value) list"
  and ConvertListValues :: "nat \<Rightarrow> json list \<Rightarrow> error + Value list"
where
  "ConvertValueMessage depth (JDict d) =
     (if max_recursion_depth < depth + 2 then Inl ParseError
      else
        (case ConvertStructFields (depth + 2) d of
           Inl e \<Rightarrow> Inl e
         | Inr fs \<Rightarrow> Inr (struct_value fs)))"
| "ConvertValueMessage depth (JList l) =
     (if max_recursion_depth < depth + 2 then Inl ParseError
      else
        (case ConvertListValues (depth + 2) l of
           Inl e \<Rightarrow> Inl e
         | Inr vs \<Rightarrow> Inr (list_value vs)))"
| "ConvertValueMessage depth JNull =
     (if max_recursion_depth < depth + 1 then Inl ParseError else Inr null_value)"
| "ConvertValueMessage depth (JBool b) =
     (if max_recursion_depth < depth + 1 then Inl ParseError else Inr (bool_value b))"
| "ConvertValueMessage depth (JStr s) =
     (if max_recursion_depth < depth + 1 then Inl ParseError
      else if valid_utf8 s then Inr (string_value s)
      else Inl UnicodeEncodeError)"
| "ConvertValueMessage depth (JInt i) =
     (if max_recursion_depth < depth + 1 then Inl ParseError
      else (case float_of_int i of Inl e \<Rightarrow> Inl e | Inr d \<Rightarrow> Inr (number_value d)))"
| "ConvertValueMessage depth (JFloat d) =
     (if max_recursion_depth < depth + 1 then Inl ParseError else Inr (number_value d))"
| "ConvertStructFields depth [] = Inr []"
| "ConvertStructFields depth ((key, v) # kvs) =
     (if \<not> valid_utf8 key then Inl UnicodeEncodeError
      else
        (case ConvertValueMessage depth v of
           Inl e \<Rightarrow> Inl e
         | Inr x \<Rightarrow>
             (case ConvertStructFields depth kvs of
                Inl e \<Rightarrow> Inl e
              | Inr fs \<Rightarrow> Inr ((key, x) # fs))))"
| "ConvertListValues depth [] = Inr []"
| "ConvertListValues depth (v # vs) =
     (case ConvertValueMessage depth v of
        Inl e \<Rightarrow> Inl e
      | Inr x \<Rightarrow>
          (case ConvertListValues depth vs of Inl e \<Rightarrow> Inl e | Inr xs \<Rightarrow> Inr (x # xs)))"

definition ParseDict :: "json \<Rightarrow> error + Struct" where
  "ParseDict js_dict =
     (case js_dict of JDict d \<Rightarrow> ConvertStructFields 1 d | _ \<Rightarrow> Inl ParseError)"

text \<open>
  \<open>json_format.MessageToDict(struct)\<close>: \<open>_StructMessageToJsonObject\<close>,
  \<open>_ValueMessageToJsonObject\<close> and \<open>_ListValueMessageToJsonObject\<close>. A \<open>Value\<close> with no
  kind set and \<open>null_value\<close> give \<open>None\<close>; \<open>number_value\<close> gives a \<open>float\<close>, and
  raises \<open>ValueError\<close> for an infinity or NaN.
\<close>

fun ValueMessageToJsonObject :: "Value \<Rightarrow> error + json"
  and StructMessageToJsonObject :: "(string \<times> Value) list \<Rightarrow> error + (string \<times> json) list"
  and ListValueMessageToJsonObject :: "Value list \<Rightarrow> error + json list"
where
  "ValueMessageToJsonObject KindNotSet = Inr JNull"
| "ValueMessageToJsonObject null_value = Inr JNull"
| "ValueMessageToJsonObject (list_value vs) =
     (case ListValueMessageToJsonObject vs of Inl e \<Rightarrow> Inl e | Inr l \<Rightarrow> Inr (JList l))"
| "ValueMessageToJsonObject (number_value d) =
     (if isinf d then Inl ValueError else if isnan d then Inl ValueError else Inr (JFloat d))"
| "ValueMessageToJsonObject (string_value s) = Inr (JStr s)"
| "ValueMessageToJsonObject (bool_value b) = Inr (JBool b)"
| "ValueMessageToJsonObject (struct_value fs) =
     (case StructMessageToJsonObject fs of Inl e \<Rightarrow> Inl e | Inr d \<Rightarrow> Inr (JDict d))"
| "StructMessageToJsonObject [] = Inr []"
| "StructMessageToJsonObject ((key, v) # fs) =
     (case ValueMessageToJsonObject v of
        Inl e \<Rightarrow> Inl e
      | Inr x \<Rightarrow>
          (case StructMessageToJsonObject fs of Inl e \<Rightarrow> Inl e | Inr d \<Rightarrow> Inr ((key, x) # d)))"
| "ListValueMessageToJsonObject [] = Inr []"
| "ListValueMessageToJsonObject (v # vs) =
     (case ValueMessageToJsonObject v of
        Inl e \<Rightarrow> Inl e
      | Inr x \<Rightarrow>
          (case ListValueMessageToJsonObject vs of Inl e \<Rightarrow> Inl e | Inr xs \<Rightarrow> Inr (x # xs)))"

definition MessageToDict :: "Struct \<Rightarrow> error + json" where
  "MessageToDict message =
     (case StructMessageToJsonObject message of Inl e \<Rightarrow> Inl e | Inr d \<Rightarrow> Inr (JDict d))"

section \<open>The wire format: \<open>SerializeToString\<close> and \<open>ParseFromString\<close>\<close>

text \<open>
  The protobuf encoding of the three messages. A field is a tag (field number times 8 plus
  the wire type, as a base-128 varint) and a payload: a varint (wire type 0), eight bytes
  (1), or a length and that many bytes (2). \<open>Struct.fields\<close> is field 1, one
  length-delimited map entry per key, with the key as field 1 and the \<open>Value\<close> as field 2
  of the entry. The members of \<open>Value.kind\<close> are \<open>null_value\<close> = 1 (varint),
  \<open>number_value\<close> = 2 (a little-endian double), \<open>string_value\<close> = 3, \<open>bool_value\<close> = 4
  (varint), \<open>struct_value\<close> = 5 and \<open>list_value\<close> = 6; \<open>ListValue.values\<close> is field 1.
  A message with no field set is the empty byte string. A varint is written in at most
  ten bytes, which holds every length below \<open>2 ^ 64\<close>.
\<close>

fun encode_varint_upto :: "nat \<Rightarrow> nat \<Rightarrow> string" where
  "encode_varint_upto 0 n = []"
| "encode_varint_upto (Suc k) n =
     (if n < 128 then [char_of n] else char_of (128 + n mod 128) # encode_varint_upto k (n div 128))"

definition encode_varint :: "nat \<Rightarrow> string" where
  "encode_varint n = encode_varint_upto 10 n"

definition encode_double :: "double \<Rightarrow> string" where
  "encode_double d = map (\<lambda>i. char_of (uint (drop_bit (8 * i) d))) [0..<8]"

definition len_delimited :: "char \<Rightarrow> string \<Rightarrow> string" where
  "len_delimited tag payload = tag # encode_varint (length payload) @ payload"

fun encode_Value :: "Value \<Rightarrow> string"
  and encode_Struct :: "(string \<times> Value) list \<Rightarrow> string"
  and encode_ListValue :: "Value list \<Rightarrow> string"
where
  "encode_Value KindNotSet = []"
| "encode_Value null_value = [CHR 0x08, CHR 0x00]"
| "encode_Value (number_value d) = CHR 0x11 # encode_double d"
| "encode_Value (string_value s) = len_delimited (CHR 0x1A) s"
| "encode_Value (bool_value b) = [CHR 0x20, if b then CHR 0x01 else CHR 0x00]"
| "encode_Value (struct_value fs) = len_delimited (CHR 0x2A) (encode_Struct fs)"
| "encode_Value (list_value vs) = len_delimited (CHR 0x32) (encode_ListValue vs)"
| "encode_Struct [] = []"
| "encode_Struct ((key, v) # fs) =
     len_delimited (CHR 0x0A) (len_delimited (CHR 0x0A) key @ len_delimited (CHR 0x12) (encode_Value v)) @
     encode_Struct fs"
| "encode_ListValue [] = []"
| "encode_ListValue (v # vs) = len_delimited (CHR 0x0A) (encode_Value v) @ encode_ListValue vs"

definition SerializeToString :: "Struct \<Rightarrow> string" where
  "SerializeToString message = encode_Struct message"

text \<open>
  Reading: a varint is at most ten bytes and is taken modulo \<open>2 ^ 64\<close>; a tag has a
  field number other than 0 and fits 32 bits. \<open>read_field\<close> gives the field number, the
  payload and the bytes after the field, or \<open>None\<close> for a truncated or malformed field.
  The group wire types 3 and 4 (deprecated, in no message here) are not modelled: a
  field of those types is malformed here, where a parser would skip a well-nested group.
\<close>

fun decode_varint_upto :: "nat \<Rightarrow> string \<Rightarrow> (int \<times> string) option" where
  "decode_varint_upto 0 bs = None"
| "decode_varint_upto (Suc k) [] = None"
| "decode_varint_upto (Suc k) (b # bs) =
     (if of_char b < (128 :: int) then Some (of_char b, bs)
      else
        (case decode_varint_upto k bs of
           None \<Rightarrow> None
         | Some (v, rest) \<Rightarrow> Some (of_char b - 128 + 128 * v, rest)))"

definition decode_varint :: "string \<Rightarrow> (int \<times> string) option" where
  "decode_varint bs =
     (case decode_varint_upto 10 bs of
        None \<Rightarrow> None
      | Some (v, rest) \<Rightarrow> Some (v mod 2 ^ 64, rest))"

definition decode_double :: "string \<Rightarrow> double" where
  "decode_double bs = word_of_int (foldr (\<lambda>c a. of_char c + 256 * a) bs 0)"

datatype wire = Varint int | Fixed64 string | Len string | Fixed32 string

definition read_payload :: "int \<Rightarrow> string \<Rightarrow> (wire \<times> string) option" where
  "read_payload wire_type bs =
     (if wire_type = 0 then
        (case decode_varint bs of None \<Rightarrow> None | Some (v, rest) \<Rightarrow> Some (Varint v, rest))
      else if wire_type = 1 then
        (if length bs < 8 then None else Some (Fixed64 (take 8 bs), drop 8 bs))
      else if wire_type = 2 then
        (case decode_varint bs of
           None \<Rightarrow> None
         | Some (n, rest) \<Rightarrow>
             if int (length rest) < n then None
             else Some (Len (take (nat n) rest), drop (nat n) rest))
      else if wire_type = 5 then
        (if length bs < 4 then None else Some (Fixed32 (take 4 bs), drop 4 bs))
      else None)"

definition read_field :: "string \<Rightarrow> (int \<times> wire \<times> string) option" where
  "read_field bs =
     (case decode_varint bs of
        None \<Rightarrow> None
      | Some (tag, rest) \<Rightarrow>
          if tag div 8 = 0 \<or> 2 ^ 32 \<le> tag then None
          else
            (case read_payload (tag mod 8) rest of
               None \<Rightarrow> None
             | Some (w, rest') \<Rightarrow> Some (tag div 8, w, rest')))"

lemma decode_varint_upto_length:
  "decode_varint_upto k bs = Some (v, rest) \<Longrightarrow> length rest < length bs"
proof (induction k bs arbitrary: v rest rule: decode_varint_upto.induct)
  case (3 k b bs)
  then show ?case
    by (fastforce split: if_splits option.splits)
qed simp_all

lemma decode_varint_length:
  "decode_varint bs = Some (v, rest) \<Longrightarrow> length rest < length bs"
  by (auto simp: decode_varint_def split: option.splits dest: decode_varint_upto_length)

lemma read_payload_length:
  assumes "read_payload wire_type bs = Some (w, rest)"
  shows "length rest \<le> length bs"
proof -
  have "length r < length bs \<Longrightarrow> length (drop n r) \<le> length bs" for r :: string and n
    by simp
  with assms show ?thesis
    by (auto simp: read_payload_def split: if_splits option.splits dest!: decode_varint_length)
qed

lemma read_payload_Len:
  assumes "read_payload wire_type bs = Some (Len p, rest)"
  shows "length p \<le> length bs"
proof -
  have "length r < length bs \<Longrightarrow> length (take n r) \<le> length bs" for r :: string and n
    by simp
  with assms show ?thesis
    by (auto simp: read_payload_def split: if_splits option.splits dest!: decode_varint_length)
qed

lemma read_field_length:
  "read_field bs = Some (fno, w, rest) \<Longrightarrow> length rest < length bs"
  by (auto simp: read_field_def split: if_splits option.splits
      dest!: decode_varint_length read_payload_length)

lemma read_field_Len:
  "read_field bs = Some (fno, Len p, rest) \<Longrightarrow> length p < length bs"
  by (auto simp: read_field_def split: if_splits option.splits
      dest!: decode_varint_length read_payload_Len)

text \<open>
  Parsing merges the fields of a payload, one after the other, into the message built so
  far. A field the message does not declare, or one with another wire type than declared,
  is skipped. Within the oneof the last member read wins; a \<open>struct_value\<close> or
  \<open>list_value\<close> read again is merged into the one already there. A string that is not
  well-formed UTF-8 raises \<open>DecodeError\<close>, as does a truncated or malformed field. A map
  entry read for a key already present replaces its value.
\<close>

definition message_payload :: "int \<Rightarrow> int \<Rightarrow> wire \<Rightarrow> string option" where
  "message_payload n fno w = (case w of Len p \<Rightarrow> if fno = n then Some p else None | _ \<Rightarrow> None)"

definition Value_struct :: "Value \<Rightarrow> (string \<times> Value) list" where
  "Value_struct v = (case v of struct_value fs \<Rightarrow> fs | _ \<Rightarrow> [])"

definition Value_list :: "Value \<Rightarrow> Value list" where
  "Value_list v = (case v of list_value vs \<Rightarrow> vs | _ \<Rightarrow> [])"

definition Value_scalar :: "Value \<Rightarrow> int \<Rightarrow> wire \<Rightarrow> error + Value" where
  "Value_scalar acc fno w =
     (case w of
        Varint v \<Rightarrow>
          if fno = 1 then Inr null_value
          else if fno = 4 then Inr (bool_value (v \<noteq> 0))
          else Inr acc
      | Fixed64 b \<Rightarrow> if fno = 2 then Inr (number_value (decode_double b)) else Inr acc
      | Len p \<Rightarrow>
          if fno = 3 then (if valid_utf8 p then Inr (string_value p) else Inl DecodeError)
          else Inr acc
      | Fixed32 b \<Rightarrow> Inr acc)"

lemma message_payload_length:
  "read_field bs = Some (fno, w, rest) \<Longrightarrow> message_payload n fno w = Some p \<Longrightarrow> length p < length bs"
  by (auto simp: message_payload_def split: wire.splits if_splits dest: read_field_Len)

function decode_Value :: "Value \<Rightarrow> string \<Rightarrow> error + Value"
  and decode_Struct :: "(string \<times> Value) list \<Rightarrow> string \<Rightarrow> error + (string \<times> Value) list"
  and decode_FieldsEntry :: "string \<Rightarrow> Value \<Rightarrow> string \<Rightarrow> error + (string \<times> Value)"
  and decode_ListValue :: "Value list \<Rightarrow> string \<Rightarrow> error + Value list"
where
  "decode_Value acc bs =
     (if bs = [] then Inr acc
      else
        (case read_field bs of
           None \<Rightarrow> Inl DecodeError
         | Some (fno, w, rest) \<Rightarrow>
             (case message_payload 5 fno w of
                Some p \<Rightarrow>
                  (case decode_Struct (Value_struct acc) p of
                     Inl e \<Rightarrow> Inl e
                   | Inr fs \<Rightarrow> decode_Value (struct_value fs) rest)
              | None \<Rightarrow>
                  (case message_payload 6 fno w of
                     Some p \<Rightarrow>
                       (case decode_ListValue (Value_list acc) p of
                          Inl e \<Rightarrow> Inl e
                        | Inr vs \<Rightarrow> decode_Value (list_value vs) rest)
                   | None \<Rightarrow>
                       (case Value_scalar acc fno w of
                          Inl e \<Rightarrow> Inl e
                        | Inr acc' \<Rightarrow> decode_Value acc' rest)))))"
| "decode_Struct acc bs =
     (if bs = [] then Inr acc
      else
        (case read_field bs of
           None \<Rightarrow> Inl DecodeError
         | Some (fno, w, rest) \<Rightarrow>
             (case message_payload 1 fno w of
                Some p \<Rightarrow>
                  (case decode_FieldsEntry [] KindNotSet p of
                     Inl e \<Rightarrow> Inl e
                   | Inr (key, v) \<Rightarrow> decode_Struct (AList.update key v acc) rest)
              | None \<Rightarrow> decode_Struct acc rest)))"
| "decode_FieldsEntry key v bs =
     (if bs = [] then Inr (key, v)
      else
        (case read_field bs of
           None \<Rightarrow> Inl DecodeError
         | Some (fno, w, rest) \<Rightarrow>
             (case message_payload 2 fno w of
                Some p \<Rightarrow>
                  (case decode_Value v p of
                     Inl e \<Rightarrow> Inl e
                   | Inr v' \<Rightarrow> decode_FieldsEntry key v' rest)
              | None \<Rightarrow>
                  (case message_payload 1 fno w of
                     Some p \<Rightarrow>
                       if valid_utf8 p then decode_FieldsEntry p v rest else Inl DecodeError
                   | None \<Rightarrow> decode_FieldsEntry key v rest))))"
| "decode_ListValue acc bs =
     (if bs = [] then Inr acc
      else
        (case read_field bs of
           None \<Rightarrow> Inl DecodeError
         | Some (fno, w, rest) \<Rightarrow>
             (case message_payload 1 fno w of
                Some p \<Rightarrow>
                  (case decode_Value KindNotSet p of
                     Inl e \<Rightarrow> Inl e
                   | Inr v \<Rightarrow> decode_ListValue (acc @ [v]) rest)
              | None \<Rightarrow> decode_ListValue acc rest)))"
  by pat_completeness auto
termination
  by (relation "measure (\<lambda>x. case x of
        Inl (Inl (acc, bs)) \<Rightarrow> length bs
      | Inl (Inr (acc, bs)) \<Rightarrow> length bs
      | Inr (Inl (key, v, bs)) \<Rightarrow> length bs
      | Inr (Inr (acc, bs)) \<Rightarrow> length bs)")
    (auto dest: read_field_length message_payload_length)

text \<open>\<open>message.ParseFromString(data)\<close> on a new \<open>Struct()\<close>.\<close>

definition ParseFromString :: "string \<Rightarrow> error + Struct" where
  "ParseFromString bs = decode_Struct [] bs"

section \<open>The class \<open>GenericJsonProtobufSerializer\<close>\<close>

text \<open>
  The instance: the five attributes \<open>__init__\<close> sets. \<open>data\<close> holds a Python value,
  \<open>None\<close> (\<open>JNull\<close>) at first; \<open>proto_data\<close> holds \<open>None\<close> or a \<open>Struct\<close>. A method
  takes the instance and returns its result, an exception or a value, with the instance
  as the method leaves it.
\<close>

record serializer =
  input_file_path :: string
  protobuf_output_path :: string
  json_output_path :: string
  data :: json
  proto_data :: "Struct option"

definition init :: "string \<Rightarrow> string \<Rightarrow> string \<Rightarrow> serializer" where
  "init input_path protobuf_path json_path =
     \<lparr>input_file_path = input_path, protobuf_output_path = protobuf_path,
      json_output_path = json_path, data = JNull, proto_data = None\<rparr>"

text \<open>
  The files: the content of every path that exists, and the paths \<open>open\<close> can open for
  writing (it raises \<open>OSError\<close> for the others). Opening a file for writing truncates it.
\<close>

record filesystem =
  files :: "string \<rightharpoonup> string"
  writable :: "string \<Rightarrow> bool"

text \<open>
  Python's truth value, which \<open>if self.data\<close> and \<open>if not self.proto_data\<close> test:
  \<open>None\<close>, \<open>False\<close>, zero, and the empty string, list and dict are false. A \<open>Struct\<close>
  defines \<open>__len__\<close> as the size of \<open>fields\<close>, so a \<open>Struct\<close> without fields is false.
\<close>

fun truthy :: "json \<Rightarrow> bool" where
  "truthy JNull = False"
| "truthy (JBool b) = b"
| "truthy (JInt i) = (i \<noteq> 0)"
| "truthy (JFloat d) = (d AND 0x7FFFFFFFFFFFFFFF \<noteq> 0)"
| "truthy (JStr s) = (s \<noteq> [])"
| "truthy (JList l) = (l \<noteq> [])"
| "truthy (JDict d) = (d \<noteq> [])"

definition truthy_proto :: "Struct option \<Rightarrow> bool" where
  "truthy_proto m = (case m of None \<Rightarrow> False | Some message \<Rightarrow> message \<noteq> [])"

text \<open>
  \<open>load_data\<close> (lines 43-61): open the input file as UTF-8 text and \<open>json.load\<close> it;
  \<open>self.data\<close> is assigned only when both succeed.
\<close>

definition load_data :: "filesystem \<Rightarrow> serializer \<Rightarrow> (error + json) \<times> serializer" where
  "load_data fs self =
     (case files fs (input_file_path self) of
        None \<Rightarrow> (Inl FileNotFoundError, self)
      | Some content \<Rightarrow>
          if \<not> valid_utf8 content then (Inl UnicodeDecodeError, self)
          else
            (case json_loads content of
               Inl e \<Rightarrow> (Inl e, self)
             | Inr v \<Rightarrow> (Inr v, self\<lparr>data := v\<rparr>)))"

text \<open>
  \<open>json_to_protobuf\<close> (lines 63-91). The argument \<open>None\<close> stands for the loaded data;
  \<open>ParseError\<close> is raised again as \<open>ParseError\<close>, any other exception passes through.
\<close>

definition json_to_protobuf :: "json \<Rightarrow> serializer \<Rightarrow> (error + Struct) \<times> serializer" where
  "json_to_protobuf json_data self =
     (if json_data = JNull \<and> data self = JNull then (Inl ValueError, self)
      else
        (case ParseDict (if json_data = JNull then data self else json_data) of
           Inl e \<Rightarrow> (Inl e, self)
         | Inr proto_struct \<Rightarrow> (Inr proto_struct, self\<lparr>proto_data := Some proto_struct\<rparr>)))"

text \<open>
  \<open>save_protobuf\<close> (lines 93-109). \<open>write_protobuf\<close> is its \<open>with open(...)\<close>
  block; the case of \<open>proto_data\<close> being \<open>None\<close> there is never reached from
  \<open>save_protobuf\<close>.
\<close>

definition write_protobuf ::
  "filesystem \<Rightarrow> serializer \<Rightarrow> (error + unit) \<times> filesystem \<times> serializer" where
  "write_protobuf fs self =
     (if \<not> writable fs (protobuf_output_path self) then (Inl OSError, fs, self)
      else
        (case proto_data self of
           Some message \<Rightarrow>
             (Inr (),
              fs\<lparr>files := (files fs)(protobuf_output_path self \<mapsto> SerializeToString message)\<rparr>,
              self)
         | None \<Rightarrow>
             (Inl AttributeError, fs\<lparr>files := (files fs)(protobuf_output_path self \<mapsto> [])\<rparr>,
              self)))"

definition save_protobuf ::
  "filesystem \<Rightarrow> serializer \<Rightarrow> (error + unit) \<times> filesystem \<times> serializer" where
  "save_protobuf fs self =
     (if \<not> truthy_proto (proto_data self) then
        (if truthy (data self) then
           (case json_to_protobuf JNull self of
              (Inl e, self') \<Rightarrow> (Inl e, fs, self')
            | (Inr proto_struct, self') \<Rightarrow> write_protobuf fs self')
         else (Inl ValueError, fs, self))
      else write_protobuf fs self)"

text \<open>\<open>load_protobuf\<close> (lines 111-132).\<close>

definition load_protobuf :: "filesystem \<Rightarrow> serializer \<Rightarrow> (error + Struct) \<times> serializer" where
  "load_protobuf fs self =
     (case files fs (protobuf_output_path self) of
        None \<Rightarrow> (Inl FileNotFoundError, self)
      | Some content \<Rightarrow>
          (case ParseFromString content of
             Inl e \<Rightarrow> (Inl e, self)
           | Inr proto_struct \<Rightarrow> (Inr proto_struct, self\<lparr>proto_data := Some proto_struct\<rparr>)))"

text \<open>\<open>protobuf_to_json\<close> (lines 134-150).\<close>

definition protobuf_to_json :: "serializer \<Rightarrow> (error + json) \<times> serializer" where
  "protobuf_to_json self =
     (case proto_data self of
        None \<Rightarrow> (Inl ValueError, self)
      | Some message \<Rightarrow>
          if message = [] then (Inl ValueError, self)
          else
            (case MessageToDict message of
               Inl e \<Rightarrow> (Inl e, self)
             | Inr json_data \<Rightarrow> (Inr json_data, self\<lparr>data := json_data\<rparr>)))"

text \<open>
  \<open>save_json\<close> (lines 152-173). The text \<open>json.dump\<close> writes (its layout and the way it
  prints a \<open>float\<close>) is not modelled: \<open>dump\<close>, the first argument, stands for
  \<open>json.dump(_, file, indent=2, ensure_ascii=False)\<close> and gives, for the data, whether the
  call returns or raises and the text that has reached the file by then. (\<open>json.dump\<close>
  writes piece by piece; it raises \<open>UnicodeEncodeError\<close> at a string that has no UTF-8
  encoding and \<open>RecursionError\<close> on data nested too deep, and what it wrote before stays in
  the file.)
\<close>

definition write_json ::
  "(json \<Rightarrow> (error + unit) \<times> string) \<Rightarrow> string \<Rightarrow> filesystem \<Rightarrow> serializer \<Rightarrow>
     (error + unit) \<times> filesystem \<times> serializer" where
  "write_json dump path fs self =
     (if \<not> writable fs path then (Inl OSError, fs, self)
      else
        (case dump (data self) of
           (r, written) \<Rightarrow> (r, fs\<lparr>files := (files fs)(path \<mapsto> written)\<rparr>, self)))"

definition save_json ::
  "(json \<Rightarrow> (error + unit) \<times> string) \<Rightarrow> string option \<Rightarrow> filesystem \<Rightarrow> serializer \<Rightarrow>
     (error + unit) \<times> filesystem \<times> serializer" where
  "save_json dump output_file_path fs self =
     (let path = (case output_file_path of None \<Rightarrow> json_output_path self | Some p \<Rightarrow> p)
      in if \<not> truthy (data self) then
           (if truthy_proto (proto_data self) then
              (case protobuf_to_json self of
                 (Inl e, self') \<Rightarrow> (Inl e, fs, self')
               | (Inr json_data, self') \<Rightarrow> write_json dump path fs self')
            else (Inl ValueError, fs, self))
         else write_json dump path fs self)"

text \<open>\<open>convert_string\<close> (lines 175-196).\<close>

definition convert_string :: "string \<Rightarrow> serializer \<Rightarrow> (error + string) \<times> serializer" where
  "convert_string json_string self =
     (case json_loads json_string of
        Inl e \<Rightarrow> (Inl e, self)
      | Inr json_data \<Rightarrow>
          (case json_to_protobuf json_data self of
             (Inl e, self') \<Rightarrow> (Inl e, self')
           | (Inr proto_struct, self') \<Rightarrow> (Inr (SerializeToString proto_struct), self')))"

text \<open>
  \<open>convert_file\<close> (lines 198-227): the two paths are set, the three steps run until one
  raises, and the \<open>finally\<close> clause puts the saved paths back.
\<close>

definition restore_paths :: "serializer \<Rightarrow> serializer \<Rightarrow> serializer" where
  "restore_paths original self =
     self\<lparr>input_file_path := input_file_path original,
          protobuf_output_path := protobuf_output_path original\<rparr>"

definition convert_file ::
  "string \<Rightarrow> string \<Rightarrow> filesystem \<Rightarrow> serializer \<Rightarrow>
     (error + unit) \<times> filesystem \<times> serializer" where
  "convert_file input_path output_path fs self =
     (let self1 = self\<lparr>input_file_path := input_path, protobuf_output_path := output_path\<rparr>
      in case load_data fs self1 of
           (Inl e, self2) \<Rightarrow> (Inl e, fs, restore_paths self self2)
         | (Inr loaded, self2) \<Rightarrow>
             (case json_to_protobuf JNull self2 of
                (Inl e, self3) \<Rightarrow> (Inl e, fs, restore_paths self self3)
              | (Inr proto_struct, self3) \<Rightarrow>
                  (case save_protobuf fs self3 of
                     (r, fs', self4) \<Rightarrow> (r, fs', restore_paths self self4))))"

section \<open>Predicates of the statements\<close>

text \<open>
  The grammar of JSON texts (RFC 8259), as predicates on strings. \<open>ws\<close> is white space;
  \<open>json_chars\<close> is the inside of a string: characters other than the quote, the
  backslash and the control characters, the two-character escapes, and \<open>\u\<close> with four
  hexadecimal digits; \<open>json_number\<close> is an optional minus sign, an integer without
  leading zero, an optional fraction and an optional exponent. \<open>json_value ext\<close>,
  \<open>json_elements ext\<close> and \<open>json_members ext\<close> are the values, the contents of a
  non-empty array and of a non-empty object. With \<open>ext\<close> the three constants \<open>NaN\<close>,
  \<open>Infinity\<close> and \<open>-Infinity\<close> are values too: that is the language of \<open>json.loads\<close>;
  without it, the language of the RFC. \<open>json_text ext t\<close>: \<open>t\<close> is a single value with
  white space around it.
\<close>

definition ws :: "string \<Rightarrow> bool" where
  "ws s = list_all is_ws s"

definition digits :: "string \<Rightarrow> bool" where
  "digits s = (s \<noteq> [] \<and> list_all is_digit s)"

definition is_hex :: "char \<Rightarrow> bool" where
  "is_hex c =
     (let n = of_char c :: nat
      in (48 \<le> n \<and> n \<le> 57) \<or> (97 \<le> n \<and> n \<le> 102) \<or> (65 \<le> n \<and> n \<le> 70))"

inductive json_chars :: "string \<Rightarrow> bool" where
  chars_end: "json_chars []"
| chars_plain:
    "c \<noteq> CHR 0x22 \<Longrightarrow> c \<noteq> CHR 0x5C \<Longrightarrow> (0x20 :: nat) \<le> of_char c \<Longrightarrow> json_chars s \<Longrightarrow>
       json_chars (c # s)"
| chars_escape:
    "e \<in> set [CHR 0x22, CHR 0x5C, CHR ''/'', CHR ''b'', CHR ''f'', CHR ''n'', CHR ''r'', CHR ''t''] \<Longrightarrow>
       json_chars s \<Longrightarrow> json_chars (CHR 0x5C # e # s)"
| chars_unicode:
    "is_hex h1 \<Longrightarrow> is_hex h2 \<Longrightarrow> is_hex h3 \<Longrightarrow> is_hex h4 \<Longrightarrow> json_chars s \<Longrightarrow>
       json_chars (CHR 0x5C # CHR ''u'' # h1 # h2 # h3 # h4 # s)"

definition json_strlit :: "string \<Rightarrow> bool" where
  "json_strlit s = (\<exists>body. s = CHR 0x22 # body @ [CHR 0x22] \<and> json_chars body)"

definition json_int :: "string \<Rightarrow> bool" where
  "json_int s = (s = ''0'' \<or> (\<exists>d ds. s = d # ds \<and> is_digit d \<and> d \<noteq> CHR ''0'' \<and> list_all is_digit ds))"

definition json_frac :: "string \<Rightarrow> bool" where
  "json_frac s = (s = [] \<or> (\<exists>ds. s = CHR ''.'' # ds \<and> digits ds))"

definition json_exp :: "string \<Rightarrow> bool" where
  "json_exp s =
     (s = [] \<or>
      (\<exists>c sign ds. s = c # sign @ ds \<and> (c = CHR ''e'' \<or> c = CHR ''E'') \<and>
         (sign = [] \<or> sign = ''+'' \<or> sign = ''-'') \<and> digits ds))"

definition json_number :: "string \<Rightarrow> bool" where
  "json_number s =
     (\<exists>sign i f e. s = sign @ i @ f @ e \<and> (sign = [] \<or> sign = ''-'') \<and>
        json_int i \<and> json_frac f \<and> json_exp e)"

inductive json_value :: "bool \<Rightarrow> string \<Rightarrow> bool"
  and json_elements :: "bool \<Rightarrow> string \<Rightarrow> bool"
  and json_members :: "bool \<Rightarrow> string \<Rightarrow> bool"
  for ext :: bool
where
  value_string: "json_strlit s \<Longrightarrow> json_value ext s"
| value_number: "json_number s \<Longrightarrow> json_value ext s"
| value_true: "json_value ext ''true''"
| value_false: "json_value ext ''false''"
| value_null: "json_value ext ''null''"
| value_NaN: "ext \<Longrightarrow> json_value ext ''NaN''"
| value_Infinity: "ext \<Longrightarrow> json_value ext ''Infinity''"
| value_neg_Infinity: "ext \<Longrightarrow> json_value ext ''-Infinity''"
| value_empty_array: "ws w \<Longrightarrow> json_value ext (CHR ''['' # w @ '']'')"
| value_array: "json_elements ext es \<Longrightarrow> json_value ext (CHR ''['' # es @ '']'')"
| value_empty_object: "ws w \<Longrightarrow> json_value ext (CHR ''{'' # w @ ''}'')"
| value_object: "json_members ext ms \<Longrightarrow> json_value ext (CHR ''{'' # ms @ ''}'')"
| elements_one: "ws w1 \<Longrightarrow> json_value ext v \<Longrightarrow> ws w2 \<Longrightarrow> json_elements ext (w1 @ v @ w2)"
| elements_more:
    "ws w1 \<Longrightarrow> json_value ext v \<Longrightarrow> ws w2 \<Longrightarrow> json_elements ext es \<Longrightarrow>
       json_elements ext (w1 @ v @ w2 @ CHR '','' # es)"
| members_one:
    "ws w1 \<Longrightarrow> json_strlit k \<Longrightarrow> ws w2 \<Longrightarrow> ws w3 \<Longrightarrow> json_value ext v \<Longrightarrow> ws w4 \<Longrightarrow>
       json_members ext (w1 @ k @ w2 @ CHR '':'' # w3 @ v @ w4)"
| members_more:
    "ws w1 \<Longrightarrow> json_strlit k \<Longrightarrow> ws w2 \<Longrightarrow> ws w3 \<Longrightarrow> json_value ext v \<Longrightarrow> ws w4 \<Longrightarrow>
       json_members ext ms \<Longrightarrow>
       json_members ext (w1 @ k @ w2 @ CHR '':'' # w3 @ v @ w4 @ CHR '','' # ms)"

definition json_text :: "bool \<Rightarrow> string \<Rightarrow> bool" where
  "json_text ext t = (\<exists>w1 v w2. t = w1 @ v @ w2 \<and> ws w1 \<and> json_value ext v \<and> ws w2)"

text \<open>
  The limits of a text. \<open>brackets s\<close> counts the characters \<open>[\<close> and \<open>{\<close> of \<open>s\<close>: a
  text is nested no deeper than that. \<open>digit_runs_ok s\<close>: no run of digits in \<open>s\<close> is
  longer than \<open>int_max_str_digits\<close>. \<open>within_limits depth s\<close>: both, for \<open>depth\<close> nested
  calls allowed. \<open>loads_error e\<close>: \<open>e\<close> is one of the three exceptions \<open>json.loads\<close>
  raises on a \<open>str\<close>.
\<close>

definition brackets :: "string \<Rightarrow> nat" where
  "brackets s = length (filter (\<lambda>c. c = CHR ''['' \<or> c = CHR ''{'') s)"

fun digit_runs_ok :: "string \<Rightarrow> bool" where
  "digit_runs_ok [] = True"
| "digit_runs_ok (c # cs) =
     (int (length (takeWhile is_digit (c # cs))) \<le> int_max_str_digits \<and> digit_runs_ok cs)"

definition within_limits :: "nat \<Rightarrow> string \<Rightarrow> bool" where
  "within_limits depth s = (brackets s \<le> depth \<and> digit_runs_ok s)"


text \<open>
  \<open>raised short depth s e\<close>: what can be said of an exception \<open>e\<close> raised by a scan of
  \<open>s\<close> with \<open>depth\<close> nested calls allowed. It is \<open>JSONDecodeError\<close>; or \<open>ValueError\<close>, and
  then \<open>s\<close> has a run of digits that is too long; or \<open>RecursionError\<close>, and then \<open>s\<close> has
  more brackets than \<open>depth\<close>, unless the first argument of the scan was too small for the
  text (\<open>short\<close>).
\<close>

definition raised :: "bool \<Rightarrow> nat \<Rightarrow> string \<Rightarrow> error \<Rightarrow> bool" where
  "raised short depth s e =
     (e = JSONDecodeError \<or> (e = ValueError \<and> \<not> digit_runs_ok s) \<or>
      (e = RecursionError \<and> (depth < brackets s \<or> short)))"


definition scan_sound :: "nat \<Rightarrow> bool" where
  "scan_sound n = (\<forall>depth s v rest. scan_once n depth s = Inr (v, rest) \<longrightarrow>
      (\<exists>tok. s = tok @ rest \<and> json_value True tok))"

definition pairs_sound :: "nat \<Rightarrow> bool" where
  "pairs_sound n = (\<forall>depth s pairs v rest. JSONObject_pairs n depth s pairs = Inr (v, rest) \<longrightarrow>
      (\<exists>ms. CHR 0x22 # s = ms @ CHR ''}'' # rest \<and> json_members True ms))"

definition values_sound :: "nat \<Rightarrow> bool" where
  "values_sound n = (\<forall>depth s values v rest. JSONArray_values n depth s values = Inr (v, rest) \<longrightarrow>
      (\<exists>es. s = es @ CHR '']'' # rest \<and> json_elements True es))"




definition scan_bound :: "nat \<Rightarrow> bool" where
  "scan_bound n = (\<forall>m depth s. 2 * length s < n \<longrightarrow> 2 * length s < m \<longrightarrow>
      scan_once n depth s = scan_once m depth s)"

definition pairs_bound :: "nat \<Rightarrow> bool" where
  "pairs_bound n = (\<forall>m depth s pairs. 2 * length s < n \<longrightarrow> 2 * length s < m \<longrightarrow>
      JSONObject_pairs n depth s pairs = JSONObject_pairs m depth s pairs)"

definition values_bound :: "nat \<Rightarrow> bool" where
  "values_bound n = (\<forall>m depth s values. 2 * length s + 1 < n \<longrightarrow> 2 * length s + 1 < m \<longrightarrow>
      JSONArray_values n depth s values = JSONArray_values m depth s values)"

section \<open>Evaluations used below\<close>

lemma json_loads_empty_list: "json_loads ''[]'' = Inr (JList [])"
  by code_simp

lemma json_loads_empty_dict: "json_loads ''{}'' = Inr (JDict [])"
  by code_simp

lemma json_loads_null: "json_loads ''null'' = Inr JNull"
  by code_simp

lemma valid_utf8_braces: "valid_utf8 ''{}''"
  by code_simp

lemma valid_utf8_brackets: "valid_utf8 ''[]''"
  by code_simp

lemma valid_utf8_a1: "valid_utf8 ''{\"a\": 1}''"
  by code_simp

lemma json_loads_a1: "json_loads ''{\"a\": 1}'' = Inr (JDict [(''a'', JInt 1)])"
  by code_simp

lemma valid_utf8_a: "valid_utf8 ''a''"
  by code_simp

lemma valid_utf8_k: "valid_utf8 ''k''"
  by code_simp

lemma float_of_int_1: "float_of_int 1 = Inr 0x3FF0000000000000"
  by code_simp

lemma ParseDict_a1:
  "ParseDict (JDict [(''a'', JInt 1)]) = Inr [(''a'', number_value 0x3FF0000000000000)]"
  by (simp add: ParseDict_def max_recursion_depth_def valid_utf8_a float_of_int_1)

lemma ParseDict_k:
  "ParseDict (JDict [(''k'', JBool True)]) = Inr [(''k'', bool_value True)]"
  by (simp add: ParseDict_def max_recursion_depth_def valid_utf8_k)

lemma MessageToDict_k:
  "MessageToDict [(''k'', bool_value True)] = Inr (JDict [(''k'', JBool True)])"
  by (simp add: MessageToDict_def)

lemma json_loads_missing_value: "json_loads ''{\"a\": }'' = Inl JSONDecodeError"
  by code_simp

lemma valid_utf8_missing_value: "valid_utf8 ''{\"a\": }''"
  by code_simp

text \<open>
  The text \<open>{"a": 1000...0}\<close> with 309 zeros is a JSON text; its number is an \<open>int\<close>
  beyond the largest double, which the field setter of \<open>number_value\<close> refuses. A \<open>str\<close>
  that is a lone surrogate has no UTF-8 encoding, and the field setter of \<open>string_value\<close>
  refuses it. The single byte \<open>0A\<close> is a tag without its payload.
\<close>

definition big_int_text :: string where
  "big_int_text = ''{\"a\": 1'' @ replicate 309 (CHR ''0'') @ ''}''"

lemma json_loads_big_int: "json_loads big_int_text = Inr (JDict [(''a'', JInt (10 ^ 309))])"
  by code_simp

lemma valid_utf8_big_int_text: "valid_utf8 big_int_text"
  by code_simp

lemma ParseDict_big_int: "ParseDict (JDict [(''a'', JInt (10 ^ 309))]) = Inl OverflowError"
  by code_simp

lemma ParseDict_surrogate:
  "ParseDict (JDict [(''a'', JStr [CHR 0xED, CHR 0xA0, CHR 0x80])]) = Inl UnicodeEncodeError"
  by code_simp

lemma read_field_truncated: "read_field [CHR 0x0A] = None"
  by code_simp

lemma ParseFromString_truncated: "ParseFromString [CHR 0x0A] = Inl DecodeError"
  by (simp add: ParseFromString_def read_field_truncated)

section \<open>What a failing method leaves behind\<close>

lemma load_data_fails:
  "isl (fst (load_data fs self)) \<Longrightarrow> snd (load_data fs self) = self"
  by (simp add: load_data_def split: option.splits sum.splits if_splits)

lemma json_to_protobuf_fails:
  "isl (fst (json_to_protobuf json_data self)) \<Longrightarrow> snd (json_to_protobuf json_data self) = self"
  by (simp add: json_to_protobuf_def split: sum.splits if_splits)

lemma load_protobuf_fails:
  "isl (fst (load_protobuf fs self)) \<Longrightarrow> snd (load_protobuf fs self) = self"
  by (simp add: load_protobuf_def split: option.splits sum.splits)

lemma protobuf_to_json_fails:
  "isl (fst (protobuf_to_json self)) \<Longrightarrow> snd (protobuf_to_json self) = self"
  by (simp add: protobuf_to_json_def split: option.splits sum.splits if_splits)

lemma convert_string_fails:
  assumes "isl (fst (convert_string json_string self))"
  shows "snd (convert_string json_string self) = self"
proof (cases "json_loads json_string")
  case (Inl e)
  then show ?thesis by (simp add: convert_string_def)
next
  case (Inr json_data)
  obtain r self' where j: "json_to_protobuf json_data self = (r, self')"
    by (cases "json_to_protobuf json_data self")
  from assms Inr j have "isl (fst (json_to_protobuf json_data self))"
    by (cases r) (simp_all add: convert_string_def)
  then have "self' = self"
    using json_to_protobuf_fails [of json_data self] j by simp
  with Inr j show ?thesis
    by (cases r) (simp_all add: convert_string_def)
qed

text \<open>
  The methods made of several steps. \<open>save_protobuf\<close> converts the loaded data when no
  protobuf data is held, and \<open>save_json\<close> converts the protobuf data when no data is held;
  when the write that follows raises, what the conversion stored stays stored.
\<close>

lemma truthy_not_None: "truthy j \<Longrightarrow> j \<noteq> JNull"
  by (cases j) simp_all

lemma save_protobuf_keeps:
  assumes "\<not> truthy_proto (proto_data self)" "truthy (data self)"
    and "ParseDict (data self) = Inr m" "\<not> writable fs (protobuf_output_path self)"
  shows "save_protobuf fs self = (Inl OSError, fs, self\<lparr>proto_data := Some m\<rparr>)"
  using assms truthy_not_None [of "data self"]
  by (simp add: save_protobuf_def json_to_protobuf_def write_protobuf_def)

lemma save_protobuf_fails:
  assumes "isl (fst (save_protobuf fs self))"
  shows "snd (snd (save_protobuf fs self)) = self \<or>
         (\<exists>m. ParseDict (data self) = Inr m \<and>
              snd (snd (save_protobuf fs self)) = self\<lparr>proto_data := Some m\<rparr>)"
proof (cases "\<not> truthy_proto (proto_data self) \<and> truthy (data self)")
  case False
  then show ?thesis
    by (auto simp: save_protobuf_def write_protobuf_def split: option.splits)
next
  case True
  then have n: "data self \<noteq> JNull" using truthy_not_None by blast
  show ?thesis
  proof (cases "ParseDict (data self)")
    case (Inl e)
    with True n show ?thesis
      by (simp add: save_protobuf_def json_to_protobuf_def)
  next
    case (Inr m)
    with True n have "snd (snd (save_protobuf fs self)) = self\<lparr>proto_data := Some m\<rparr>"
      by (simp add: save_protobuf_def json_to_protobuf_def write_protobuf_def)
    with Inr show ?thesis by blast
  qed
qed

lemma save_json_keeps:
  assumes "\<not> truthy (data self)" "proto_data self = Some message" "message \<noteq> []"
    and "MessageToDict message = Inr j"
    and "\<not> writable fs (case output_file_path of None \<Rightarrow> json_output_path self | Some p \<Rightarrow> p)"
  shows "save_json dump output_file_path fs self = (Inl OSError, fs, self\<lparr>data := j\<rparr>)"
  using assms
  by (simp add: save_json_def truthy_proto_def protobuf_to_json_def write_json_def Let_def
      split: option.splits)

lemma save_json_dump_raises:
  assumes "\<not> truthy (data self)" "proto_data self = Some message" "message \<noteq> []"
    and "MessageToDict message = Inr j"
    and "writable fs (case output_file_path of None \<Rightarrow> json_output_path self | Some p \<Rightarrow> p)"
    and "dump j = (Inl e, written)"
  shows "save_json dump output_file_path fs self =
           (Inl e,
            fs\<lparr>files := (files fs)
                 ((case output_file_path of None \<Rightarrow> json_output_path self | Some p \<Rightarrow> p) \<mapsto> written)\<rparr>,
            self\<lparr>data := j\<rparr>)"
  using assms
  by (simp add: save_json_def truthy_proto_def protobuf_to_json_def write_json_def Let_def
      split: option.splits)

lemma write_json_self: "snd (snd (write_json dump path fs self)) = self"
  by (simp add: write_json_def split: prod.splits)

lemma save_json_fails:
  assumes "isl (fst (save_json dump output_file_path fs self))"
  shows "snd (snd (save_json dump output_file_path fs self)) = self \<or>
         (\<exists>message j. proto_data self = Some message \<and> MessageToDict message = Inr j \<and>
              snd (snd (save_json dump output_file_path fs self)) = self\<lparr>data := j\<rparr>)"
proof (cases "\<not> truthy (data self) \<and> truthy_proto (proto_data self)")
  case False
  then show ?thesis
    by (auto simp: save_json_def Let_def write_json_self)
next
  case True
  then obtain message where m: "proto_data self = Some message" "message \<noteq> []"
    by (auto simp: truthy_proto_def split: option.splits)
  show ?thesis
  proof (cases "MessageToDict message")
    case (Inl e)
    with True m show ?thesis
      by (simp add: save_json_def Let_def protobuf_to_json_def)
  next
    case (Inr j)
    with True m have "snd (snd (save_json dump output_file_path fs self)) = self\<lparr>data := j\<rparr>"
      by (simp add: save_json_def Let_def protobuf_to_json_def write_json_self)
    with m Inr show ?thesis by blast
  qed
qed

text \<open>
  \<open>convert_file\<close> runs three steps. When the second raises, the data the first loaded
  stays stored; when the third raises, so does the \<open>Struct\<close> the second converted.
\<close>

lemma restore_paths_set:
  "restore_paths self
     (self\<lparr>input_file_path := input_path, protobuf_output_path := output_path, data := j\<rparr>) =
   self\<lparr>data := j\<rparr>"
  "restore_paths self
     (self\<lparr>input_file_path := input_path, protobuf_output_path := output_path, data := j,
           proto_data := Some m\<rparr>) =
   self\<lparr>data := j, proto_data := Some m\<rparr>"
  "restore_paths self
     (self\<lparr>input_file_path := input_path, protobuf_output_path := output_path\<rparr>) = self"
  by (simp_all add: restore_paths_def)

lemma convert_file_keeps_data:
  assumes "files fs input_path = Some t" "valid_utf8 t" "json_loads t = Inr j"
    and "j \<noteq> JNull" "ParseDict j = Inl e"
  shows "convert_file input_path output_path fs self = (Inl e, fs, self\<lparr>data := j\<rparr>)"
  using assms
  by (simp add: convert_file_def load_data_def json_to_protobuf_def restore_paths_set)

lemma convert_file_keeps_both:
  assumes "files fs input_path = Some t" "valid_utf8 t" "json_loads t = Inr j"
    and "ParseDict j = Inr m" "m \<noteq> []" "\<not> writable fs output_path"
  shows "convert_file input_path output_path fs self =
           (Inl OSError, fs, self\<lparr>data := j, proto_data := Some m\<rparr>)"
proof -
  from assms(4) have "j \<noteq> JNull" by (auto simp: ParseDict_def)
  with assms show ?thesis
    by (simp add: convert_file_def load_data_def json_to_protobuf_def save_protobuf_def
        truthy_proto_def write_protobuf_def restore_paths_set)
qed

lemma convert_file_fails:
  assumes "isl (fst (convert_file input_path output_path fs self))"
  shows "snd (snd (convert_file input_path output_path fs self)) = self \<or>
         (\<exists>t j. files fs input_path = Some t \<and> json_loads t = Inr j \<and>
            (snd (snd (convert_file input_path output_path fs self)) = self\<lparr>data := j\<rparr> \<or>
             (\<exists>m. ParseDict j = Inr m \<and>
                snd (snd (convert_file input_path output_path fs self)) =
                  self\<lparr>data := j, proto_data := Some m\<rparr>)))"
proof (cases "files fs input_path")
  case None
  then show ?thesis
    by (simp add: convert_file_def load_data_def restore_paths_set)
next
  case (Some t)
  show ?thesis
  proof (cases "valid_utf8 t")
    case False
    with Some show ?thesis
      by (simp add: convert_file_def load_data_def restore_paths_set)
  next
    case u: True
    show ?thesis
    proof (cases "json_loads t")
      case (Inl e)
      with Some u show ?thesis
        by (simp add: convert_file_def load_data_def restore_paths_set)
    next
      case j: (Inr j)
      show ?thesis
      proof (cases "j = JNull")
        case True
        with Some u j have
          "snd (snd (convert_file input_path output_path fs self)) = self\<lparr>data := j\<rparr>"
          by (simp add: convert_file_def load_data_def json_to_protobuf_def restore_paths_set)
        with Some j show ?thesis by blast
      next
        case n: False
        show ?thesis
        proof (cases "ParseDict j")
          case (Inl e)
          from convert_file_keeps_data [OF Some u j n Inl] Some j show ?thesis by auto
        next
          case (Inr m)
          let ?s3 = "self\<lparr>input_file_path := input_path, protobuf_output_path := output_path,
                          data := j, proto_data := Some m\<rparr>"
          have c: "convert_file input_path output_path fs self =
                (case save_protobuf fs ?s3 of (r, fs', self4) \<Rightarrow> (r, fs', restore_paths self self4))"
            using Some u j n Inr
            by (simp add: convert_file_def load_data_def json_to_protobuf_def)
          have "snd (snd (save_protobuf fs ?s3)) = ?s3"
            using n by (simp add: save_protobuf_def write_protobuf_def json_to_protobuf_def Inr)
          with c have "snd (snd (convert_file input_path output_path fs self)) =
                self\<lparr>data := j, proto_data := Some m\<rparr>"
            by (simp add: restore_paths_set split: prod.splits)
          with Some j Inr show ?thesis by blast
        qed
      qed
    qed
  qed
qed

text \<open>
  C7, as amended. Each method that is a single step (\<open>load_data\<close>, \<open>json_to_protobuf\<close>,
  \<open>load_protobuf\<close>, \<open>protobuf_to_json\<close>, \<open>convert_string\<close>) is all-or-nothing: when it
  raises, the instance, \<open>data\<close> and \<open>proto_data\<close> included, is as it was before the call.
  The methods made of several steps are not. When \<open>save_protobuf\<close> has converted the
  loaded data and the file cannot be written, \<open>proto_data\<close> holds the converted \<open>Struct\<close>;
  when \<open>save_json\<close> has converted the protobuf data and the write raises (the file cannot
  be opened, or \<open>json.dump\<close> raises), \<open>data\<close> holds the converted value. When
  \<open>convert_file\<close> raises in its second step, \<open>data\<close> holds what the first step loaded;
  when it raises in its third step, \<open>proto_data\<close> holds the converted \<open>Struct\<close> as well.
  In every case the instance a failing call leaves holds, in \<open>data\<close> and \<open>proto_data\<close>,
  what it held before or the whole result of a step that succeeded.
\<close>

theorem all_or_nothing_by_method:
  "(isl (fst (load_data fs self)) \<longrightarrow> snd (load_data fs self) = self) \<and>
   (isl (fst (json_to_protobuf json_data self)) \<longrightarrow>
      snd (json_to_protobuf json_data self) = self) \<and>
   (isl (fst (load_protobuf fs self)) \<longrightarrow> snd (load_protobuf fs self) = self) \<and>
   (isl (fst (protobuf_to_json self)) \<longrightarrow> snd (protobuf_to_json self) = self) \<and>
   (isl (fst (convert_string json_string self)) \<longrightarrow>
      snd (convert_string json_string self) = self) \<and>
   (\<not> truthy_proto (proto_data self) \<and> truthy (data self) \<and> ParseDict (data self) = Inr m \<and>
    \<not> writable fs (protobuf_output_path self) \<longrightarrow>
      save_protobuf fs self = (Inl OSError, fs, self\<lparr>proto_data := Some m\<rparr>)) \<and>
   (isl (fst (save_protobuf fs self)) \<longrightarrow>
      snd (snd (save_protobuf fs self)) = self \<or>
      (\<exists>m'. ParseDict (data self) = Inr m' \<and>
         snd (snd (save_protobuf fs self)) = self\<lparr>proto_data := Some m'\<rparr>)) \<and>
   (\<not> truthy (data self) \<and> proto_data self = Some message \<and> message \<noteq> [] \<and>
    MessageToDict message = Inr j \<and>
    \<not> writable fs (case output_file_path of None \<Rightarrow> json_output_path self | Some p \<Rightarrow> p) \<longrightarrow>
      save_json dump output_file_path fs self = (Inl OSError, fs, self\<lparr>data := j\<rparr>)) \<and>
   (\<not> truthy (data self) \<and> proto_data self = Some message \<and> message \<noteq> [] \<and>
    MessageToDict message = Inr j \<and>
    writable fs (case output_file_path of None \<Rightarrow> json_output_path self | Some p \<Rightarrow> p) \<and>
    dump j = (Inl e, written) \<longrightarrow>
      save_json dump output_file_path fs self =
        (Inl e,
         fs\<lparr>files := (files fs)
              ((case output_file_path of None \<Rightarrow> json_output_path self | Some p \<Rightarrow> p) \<mapsto> written)\<rparr>,
         self\<lparr>data := j\<rparr>)) \<and>
   (isl (fst (save_json dump output_file_path fs self)) \<longrightarrow>
      snd (snd (save_json dump output_file_path fs self)) = self \<or>
      (\<exists>message' j'. proto_data self = Some message' \<and> MessageToDict message' = Inr j' \<and>
         snd (snd (save_json dump output_file_path fs self)) = self\<lparr>data := j'\<rparr>)) \<and>
   (files fs input_path = Some t \<and> valid_utf8 t \<and> json_loads t = Inr loaded \<and>
    loaded \<noteq> JNull \<and> ParseDict loaded = Inl e' \<longrightarrow>
      convert_file input_path output_path fs self = (Inl e', fs, self\<lparr>data := loaded\<rparr>)) \<and>
   (files fs input_path = Some t \<and> valid_utf8 t \<and> json_loads t = Inr loaded \<and>
    ParseDict loaded = Inr proto_struct \<and> proto_struct \<noteq> [] \<and> \<not> writable fs output_path \<longrightarrow>
      convert_file input_path output_path fs self =
        (Inl OSError, fs, self\<lparr>data := loaded, proto_data := Some proto_struct\<rparr>)) \<and>
   (isl (fst (convert_file input_path output_path fs self)) \<longrightarrow>
      snd (snd (convert_file input_path output_path fs self)) = self \<or>
      (\<exists>t' j'. files fs input_path = Some t' \<and> json_loads t' = Inr j' \<and>
         (snd (snd (convert_file input_path output_path fs self)) = self\<lparr>data := j'\<rparr> \<or>
          (\<exists>m'. ParseDict j' = Inr m' \<and>
             snd (snd (convert_file input_path output_path fs self)) =
               self\<lparr>data := j', proto_data := Some m'\<rparr>))))"
proof (intro conjI impI)
  show "snd (load_data fs self) = self" if "isl (fst (load_data fs self))"
    using that by (rule load_data_fails)
  show "snd (json_to_protobuf json_data self) = self"
    if "isl (fst (json_to_protobuf json_data self))"
    using that by (rule json_to_protobuf_fails)
  show "snd (load_protobuf fs self) = self" if "isl (fst (load_protobuf fs self))"
    using that by (rule load_protobuf_fails)
  show "snd (protobuf_to_json self) = self" if "isl (fst (protobuf_to_json self))"
    using that by (rule protobuf_to_json_fails)
  show "snd (convert_string json_string self) = self"
    if "isl (fst (convert_string json_string self))"
    using that by (rule convert_string_fails)
  show "save_protobuf fs self = (Inl OSError, fs, self\<lparr>proto_data := Some m\<rparr>)"
    if "\<not> truthy_proto (proto_data self) \<and> truthy (data self) \<and> ParseDict (data self) = Inr m \<and>
        \<not> writable fs (protobuf_output_path self)"
    using that save_protobuf_keeps by blast
  show "snd (snd (save_protobuf fs self)) = self \<or>
      (\<exists>m'. ParseDict (data self) = Inr m' \<and>
         snd (snd (save_protobuf fs self)) = self\<lparr>proto_data := Some m'\<rparr>)"
    if "isl (fst (save_protobuf fs self))"
    using that by (rule save_protobuf_fails)
  show "save_json dump output_file_path fs self = (Inl OSError, fs, self\<lparr>data := j\<rparr>)"
    if "\<not> truthy (data self) \<and> proto_data self = Some message \<and> message \<noteq> [] \<and>
        MessageToDict message = Inr j \<and>
        \<not> writable fs (case output_file_path of None \<Rightarrow> json_output_path self | Some p \<Rightarrow> p)"
    using that save_json_keeps by blast
  show "save_json dump output_file_path fs self =
        (Inl e,
         fs\<lparr>files := (files fs)
              ((case output_file_path of None \<Rightarrow> json_output_path self | Some p \<Rightarrow> p) \<mapsto> written)\<rparr>,
         self\<lparr>data := j\<rparr>)"
    if "\<not> truthy (data self) \<and> proto_data self = Some message \<and> message \<noteq> [] \<and>
        MessageToDict message = Inr j \<and>
        writable fs (case output_file_path of None \<Rightarrow> json_output_path self | Some p \<Rightarrow> p) \<and>
        dump j = (Inl e, written)"
    using that save_json_dump_raises by blast
  show "snd (snd (save_json dump output_file_path fs self)) = self \<or>
      (\<exists>message' j'. proto_data self = Some message' \<and> MessageToDict message' = Inr j' \<and>
         snd (snd (save_json dump output_file_path fs self)) = self\<lparr>data := j'\<rparr>)"
    if "isl (fst (save_json dump output_file_path fs self))"
    using that by (rule save_json_fails)
  show "convert_file input_path output_path fs self = (Inl e', fs, self\<lparr>data := loaded\<rparr>)"
    if "files fs input_path = Some t \<and> valid_utf8 t \<and> json_loads t = Inr loaded \<and>
        loaded \<noteq> JNull \<and> ParseDict loaded = Inl e'"
    using that convert_file_keeps_data by blast
  show "convert_file input_path output_path fs self =
        (Inl OSError, fs, self\<lparr>data := loaded, proto_data := Some proto_struct\<rparr>)"
    if "files fs input_path = Some t \<and> valid_utf8 t \<and> json_loads t = Inr loaded \<and>
        ParseDict loaded = Inr proto_struct \<and> proto_struct \<noteq> [] \<and> \<not> writable fs output_path"
    using that convert_file_keeps_both by blast
  show "snd (snd (convert_file input_path output_path fs self)) = self \<or>
      (\<exists>t' j'. files fs input_path = Some t' \<and> json_loads t' = Inr j' \<and>
         (snd (snd (convert_file input_path output_path fs self)) = self\<lparr>data := j'\<rparr> \<or>
          (\<exists>m'. ParseDict j' = Inr m' \<and>
             snd (snd (convert_file input_path output_path fs self)) =
               self\<lparr>data := j', proto_data := Some m'\<rparr>)))"
    if "isl (fst (convert_file input_path output_path fs self))"
    using that by (rule convert_file_fails)
qed

text \<open>
  Witness for C7. \<open>loaded_instance\<close> holds data and protobuf data; in \<open>broken_files\<close> the
  JSON file has a missing value, the protobuf file is cut off, and no path can be written.
  Each of the five single-step methods raises and leaves the instance as it was. With
  nothing converted yet, \<open>save_protobuf\<close> and \<open>save_json\<close> convert, fail to write, and
  leave the converted value stored; with a writable path and a \<open>json.dump\<close> that raises
  after the first character, \<open>save_json\<close> leaves that character in the file as well.
  \<open>convert_file\<close> keeps the loaded data when the conversion raises (\<open>big.json\<close>), and
  the loaded data and the \<open>Struct\<close> when the output cannot be written (\<open>in.json\<close>).
\<close>

definition loaded_instance :: serializer where
  "loaded_instance =
     \<lparr>input_file_path = ''a.json'', protobuf_output_path = ''a.pb'', json_output_path = ''b.json'',
      data = JDict [(''k'', JBool True)], proto_data = Some [(''k'', bool_value True)]\<rparr>"

definition broken_files :: filesystem where
  "broken_files =
     \<lparr>files = [''a.json'' \<mapsto> ''{\"a\": }'', ''a.pb'' \<mapsto> [CHR 0x0A],
               ''big.json'' \<mapsto> big_int_text, ''in.json'' \<mapsto> ''{\"a\": 1}''],
      writable = (\<lambda>p. False)\<rparr>"

theorem all_or_nothing_by_method_witness:
  "load_data broken_files loaded_instance = (Inl JSONDecodeError, loaded_instance) \<and>
   json_to_protobuf (JDict [(''a'', JStr [CHR 0xED, CHR 0xA0, CHR 0x80])]) loaded_instance =
     (Inl UnicodeEncodeError, loaded_instance) \<and>
   load_protobuf broken_files loaded_instance = (Inl DecodeError, loaded_instance) \<and>
   protobuf_to_json (loaded_instance\<lparr>proto_data := None\<rparr>) =
     (Inl ValueError, loaded_instance\<lparr>proto_data := None\<rparr>) \<and>
   convert_string ''{\"a\": }'' loaded_instance = (Inl JSONDecodeError, loaded_instance) \<and>
   save_protobuf broken_files (loaded_instance\<lparr>proto_data := None\<rparr>) =
     (Inl OSError, broken_files, loaded_instance\<lparr>proto_data := Some [(''k'', bool_value True)]\<rparr>) \<and>
   save_json (\<lambda>j. (Inr (), [])) None broken_files (loaded_instance\<lparr>data := JNull\<rparr>) =
     (Inl OSError, broken_files, loaded_instance\<lparr>data := JDict [(''k'', JBool True)]\<rparr>) \<and>
   save_json (\<lambda>j. (Inl UnicodeEncodeError, ''{'')) None (broken_files\<lparr>writable := (\<lambda>p. True)\<rparr>)
       (loaded_instance\<lparr>data := JNull\<rparr>) =
     (Inl UnicodeEncodeError,
      broken_files\<lparr>writable := (\<lambda>p. True), files := (files broken_files)(''b.json'' \<mapsto> ''{'')\<rparr>,
      loaded_instance\<lparr>data := JDict [(''k'', JBool True)]\<rparr>) \<and>
   convert_file ''big.json'' ''out.pb'' broken_files loaded_instance =
     (Inl OverflowError, broken_files, loaded_instance\<lparr>data := JDict [(''a'', JInt (10 ^ 309))]\<rparr>) \<and>
   convert_file ''in.json'' ''out.pb'' broken_files loaded_instance =
     (Inl OSError, broken_files,
      loaded_instance\<lparr>data := JDict [(''a'', JInt 1)],
                      proto_data := Some [(''a'', number_value 0x3FF0000000000000)]\<rparr>)"
proof -
  let ?n = "loaded_instance\<lparr>proto_data := None\<rparr>"
  let ?d = "loaded_instance\<lparr>data := JNull\<rparr>"
  let ?w = "broken_files\<lparr>writable := (\<lambda>p. True)\<rparr>"
  note A = all_or_nothing_by_method
    [where fs = broken_files and self = loaded_instance
       and json_data = "JDict [(''a'', JStr [CHR 0xED, CHR 0xA0, CHR 0x80])]"
       and json_string = "''{\"a\": }''"
       and input_path = "''big.json''" and output_path = "''out.pb''" and t = big_int_text
       and loaded = "JDict [(''a'', JInt (10 ^ 309))]" and e' = OverflowError]
  note B = all_or_nothing_by_method
    [where fs = broken_files and self = ?n and m = "[(''k'', bool_value True)]"]
  note C = all_or_nothing_by_method
    [where fs = broken_files and self = ?d and message = "[(''k'', bool_value True)]"
       and j = "JDict [(''k'', JBool True)]" and output_file_path = None
       and dump = "\<lambda>j. (Inr (), [])"]
  note D = all_or_nothing_by_method
    [where fs = ?w and self = ?d and message = "[(''k'', bool_value True)]"
       and j = "JDict [(''k'', JBool True)]" and output_file_path = None
       and dump = "\<lambda>j. (Inl UnicodeEncodeError, ''{'')" and e = UnicodeEncodeError
       and written = "''{''"]
  note E = all_or_nothing_by_method
    [where fs = broken_files and self = loaded_instance
       and input_path = "''in.json''" and output_path = "''out.pb''" and t = "''{\"a\": 1}''"
       and loaded = "JDict [(''a'', JInt 1)]"
       and proto_struct = "[(''a'', number_value 0x3FF0000000000000)]"]
  have f1: "fst (load_data broken_files loaded_instance) = Inl JSONDecodeError"
    by (simp add: load_data_def broken_files_def loaded_instance_def valid_utf8_missing_value
        json_loads_missing_value)
  have f2: "fst (json_to_protobuf (JDict [(''a'', JStr [CHR 0xED, CHR 0xA0, CHR 0x80])])
              loaded_instance) = Inl UnicodeEncodeError"
    by (simp add: json_to_protobuf_def ParseDict_surrogate)
  have f3: "fst (load_protobuf broken_files loaded_instance) = Inl DecodeError"
    by (simp add: load_protobuf_def broken_files_def loaded_instance_def ParseFromString_truncated)
  have f4: "fst (protobuf_to_json ?n) = Inl ValueError"
    by (simp add: protobuf_to_json_def)
  have f5: "fst (convert_string ''{\"a\": }'' loaded_instance) = Inl JSONDecodeError"
    by (simp add: convert_string_def json_loads_missing_value)
  have 1: "load_data broken_files loaded_instance = (Inl JSONDecodeError, loaded_instance)"
    using f1 A [THEN conjunct1] by (simp add: prod_eq_iff)
  have 2: "json_to_protobuf (JDict [(''a'', JStr [CHR 0xED, CHR 0xA0, CHR 0x80])]) loaded_instance =
      (Inl UnicodeEncodeError, loaded_instance)"
    using f2 A [THEN conjunct2, THEN conjunct1] by (simp add: prod_eq_iff)
  have 3: "load_protobuf broken_files loaded_instance = (Inl DecodeError, loaded_instance)"
    using f3 A [THEN conjunct2, THEN conjunct2, THEN conjunct1] by (simp add: prod_eq_iff)
  have 4: "protobuf_to_json ?n = (Inl ValueError, ?n)"
    using f4 B [THEN conjunct2, THEN conjunct2, THEN conjunct2, THEN conjunct1]
    by (simp add: prod_eq_iff)
  have 5: "convert_string ''{\"a\": }'' loaded_instance = (Inl JSONDecodeError, loaded_instance)"
    using f5 A [THEN conjunct2, THEN conjunct2, THEN conjunct2, THEN conjunct2, THEN conjunct1]
    by (simp add: prod_eq_iff)
  have h6: "\<not> truthy_proto (proto_data ?n) \<and> truthy (data ?n) \<and>
      ParseDict (data ?n) = Inr [(''k'', bool_value True)] \<and>
      \<not> writable broken_files (protobuf_output_path ?n)"
    by (simp add: loaded_instance_def broken_files_def truthy_proto_def ParseDict_k)
  have 6: "save_protobuf broken_files ?n =
      (Inl OSError, broken_files, loaded_instance\<lparr>proto_data := Some [(''k'', bool_value True)]\<rparr>)"
    using h6 B [THEN conjunct2, THEN conjunct2, THEN conjunct2, THEN conjunct2, THEN conjunct2,
      THEN conjunct1]
    by simp
  have h7: "\<not> truthy (data ?d) \<and> proto_data ?d = Some [(''k'', bool_value True)] \<and>
      [(''k'', bool_value True)] \<noteq> [] \<and>
      MessageToDict [(''k'', bool_value True)] = Inr (JDict [(''k'', JBool True)])"
    by (simp add: loaded_instance_def MessageToDict_k)
  have 7: "save_json (\<lambda>j. (Inr (), [])) None broken_files ?d =
      (Inl OSError, broken_files, loaded_instance\<lparr>data := JDict [(''k'', JBool True)]\<rparr>)"
    using h7 C [THEN conjunct2, THEN conjunct2, THEN conjunct2, THEN conjunct2, THEN conjunct2,
      THEN conjunct2, THEN conjunct2, THEN conjunct1]
    by (simp add: broken_files_def loaded_instance_def)
  have 8: "save_json (\<lambda>j. (Inl UnicodeEncodeError, ''{'')) None ?w ?d =
      (Inl UnicodeEncodeError,
       broken_files\<lparr>writable := (\<lambda>p. True), files := (files broken_files)(''b.json'' \<mapsto> ''{'')\<rparr>,
       loaded_instance\<lparr>data := JDict [(''k'', JBool True)]\<rparr>)"
    using h7 D [THEN conjunct2, THEN conjunct2, THEN conjunct2, THEN conjunct2, THEN conjunct2,
      THEN conjunct2, THEN conjunct2, THEN conjunct2, THEN conjunct1]
    by (simp add: broken_files_def loaded_instance_def)
  have h9: "files broken_files ''big.json'' = Some big_int_text \<and> valid_utf8 big_int_text \<and>
      json_loads big_int_text = Inr (JDict [(''a'', JInt (10 ^ 309))]) \<and>
      JDict [(''a'', JInt (10 ^ 309))] \<noteq> JNull \<and>
      ParseDict (JDict [(''a'', JInt (10 ^ 309))]) = Inl OverflowError"
    using valid_utf8_big_int_text json_loads_big_int ParseDict_big_int
    by (simp add: broken_files_def)
  have 9: "convert_file ''big.json'' ''out.pb'' broken_files loaded_instance =
      (Inl OverflowError, broken_files, loaded_instance\<lparr>data := JDict [(''a'', JInt (10 ^ 309))]\<rparr>)"
    using h9 A [THEN conjunct2, THEN conjunct2, THEN conjunct2, THEN conjunct2, THEN conjunct2,
      THEN conjunct2, THEN conjunct2, THEN conjunct2, THEN conjunct2, THEN conjunct2,
      THEN conjunct1]
    by blast
  have h10: "files broken_files ''in.json'' = Some ''{\"a\": 1}'' \<and> valid_utf8 ''{\"a\": 1}'' \<and>
      json_loads ''{\"a\": 1}'' = Inr (JDict [(''a'', JInt 1)]) \<and>
      ParseDict (JDict [(''a'', JInt 1)]) = Inr [(''a'', number_value 0x3FF0000000000000)] \<and>
      [(''a'', number_value 0x3FF0000000000000)] \<noteq> [] \<and> \<not> writable broken_files ''out.pb''"
    using valid_utf8_a1 json_loads_a1 ParseDict_a1
    by (simp add: broken_files_def)
  have 10: "convert_file ''in.json'' ''out.pb'' broken_files loaded_instance =
      (Inl OSError, broken_files,
       loaded_instance\<lparr>data := JDict [(''a'', JInt 1)],
                       proto_data := Some [(''a'', number_value 0x3FF0000000000000)]\<rparr>)"
    using h10 E [THEN conjunct2, THEN conjunct2, THEN conjunct2, THEN conjunct2, THEN conjunct2,
      THEN conjunct2, THEN conjunct2, THEN conjunct2, THEN conjunct2, THEN conjunct2,
      THEN conjunct2, THEN conjunct1]
    by blast
  from 1 2 3 4 5 6 7 8 9 10 show ?thesis by blast
qed

text \<open>
  Counterexample to C7 as stated: \<open>convert_file\<close> on a new instance, with a file that holds
  \<open>{"a": 1}\<close> and an output path that cannot be opened for writing. The first two steps
  succeed and store their results, the third raises \<open>OSError\<close>: the call fails, and
  \<open>data\<close> and \<open>proto_data\<close> are no longer \<open>None\<close>.
\<close>

theorem convert_file_not_all_or_nothing:
  "convert_file ''in.json'' ''out.pb''
     \<lparr>files = [''in.json'' \<mapsto> ''{\"a\": 1}''], writable = (\<lambda>p. False)\<rparr>
     (init ''complex.json'' ''complex-output.pb'' ''output_from_protobuf.json'') =
   (Inl OSError, \<lparr>files = [''in.json'' \<mapsto> ''{\"a\": 1}''], writable = (\<lambda>p. False)\<rparr>,
    (init ''complex.json'' ''complex-output.pb'' ''output_from_protobuf.json'')
      \<lparr>data := JDict [(''a'', JInt 1)],
       proto_data := Some [(''a'', number_value 0x3FF0000000000000)]\<rparr>) \<and>
   data (init ''complex.json'' ''complex-output.pb'' ''output_from_protobuf.json'') = JNull \<and>
   proto_data (init ''complex.json'' ''complex-output.pb'' ''output_from_protobuf.json'') = None"
  by (simp add: convert_file_def load_data_def json_loads_a1 valid_utf8_a1
      json_to_protobuf_def ParseDict_a1 restore_paths_def init_def save_protobuf_def
      truthy_proto_def write_protobuf_def)

text \<open>
  The same happens when the second step raises: on a file that holds \<open>[]\<close>,
  \<open>json_to_protobuf\<close> raises \<open>ParseError\<close> after \<open>load_data\<close> has stored the list.
\<close>

lemma convert_file_keeps_list:
  "convert_file ''in.json'' ''out.pb''
     \<lparr>files = [''in.json'' \<mapsto> ''[]''], writable = (\<lambda>p. True)\<rparr>
     (init ''complex.json'' ''complex-output.pb'' ''output_from_protobuf.json'') =
   (Inl ParseError, \<lparr>files = [''in.json'' \<mapsto> ''[]''], writable = (\<lambda>p. True)\<rparr>,
    (init ''complex.json'' ''complex-output.pb'' ''output_from_protobuf.json'')\<lparr>data := JList []\<rparr>)"
  by (simp add: convert_file_def load_data_def json_loads_empty_list valid_utf8_brackets
      json_to_protobuf_def ParseDict_def restore_paths_def init_def)

section \<open>The paths after \<open>convert_file\<close>\<close>

lemma load_data_json_output_path:
  "json_output_path (snd (load_data fs self)) = json_output_path self"
  by (simp add: load_data_def split: option.splits sum.splits)

lemma json_to_protobuf_json_output_path:
  "json_output_path (snd (json_to_protobuf json_data self)) = json_output_path self"
  by (simp add: json_to_protobuf_def split: sum.splits)

lemma write_protobuf_self: "snd (snd (write_protobuf fs self)) = self"
  by (simp add: write_protobuf_def split: option.splits)

lemma save_protobuf_json_output_path:
  "json_output_path (snd (snd (save_protobuf fs self))) = json_output_path self"
proof -
  obtain r self' where j: "json_to_protobuf JNull self = (r, self')"
    by (cases "json_to_protobuf JNull self")
  from json_to_protobuf_json_output_path [of JNull self] j
  have p: "json_output_path self' = json_output_path self" by simp
  show ?thesis
  proof (cases "\<not> truthy_proto (proto_data self) \<and> truthy (data self)")
    case True
    with j have "snd (snd (save_protobuf fs self)) = self'"
      by (cases r) (simp_all add: save_protobuf_def write_protobuf_self)
    with p show ?thesis by simp
  next
    case False
    then have "snd (snd (save_protobuf fs self)) = self"
      by (auto simp: save_protobuf_def write_protobuf_self)
    then show ?thesis by simp
  qed
qed

text \<open>
  Whatever step \<open>convert_file\<close> stops at, the instance it leaves is one of the
  intermediate instances with the two saved paths put back.
\<close>

lemma convert_file_final:
  "\<exists>s. snd (snd (convert_file input_path output_path fs self)) = restore_paths self s \<and>
       json_output_path s = json_output_path self"
proof -
  let ?s1 = "self\<lparr>input_file_path := input_path, protobuf_output_path := output_path\<rparr>"
  obtain r1 s2 where l: "load_data fs ?s1 = (r1, s2)"
    by (cases "load_data fs ?s1")
  from load_data_json_output_path [of fs ?s1] l
  have s2: "json_output_path s2 = json_output_path self" by simp
  obtain r2 s3 where j: "json_to_protobuf JNull s2 = (r2, s3)"
    by (cases "json_to_protobuf JNull s2")
  from json_to_protobuf_json_output_path [of JNull s2] j s2
  have s3: "json_output_path s3 = json_output_path self" by simp
  obtain r3 fs' s4 where w: "save_protobuf fs s3 = (r3, fs', s4)"
    by (cases "save_protobuf fs s3")
  from save_protobuf_json_output_path [of fs s3] w s3
  have s4: "json_output_path s4 = json_output_path self" by simp
  show ?thesis
  proof (cases r1)
    case (Inl e)
    with l s2 show ?thesis by (auto simp: convert_file_def Let_def)
  next
    case r1: (Inr v)
    show ?thesis
    proof (cases r2)
      case (Inl e)
      with l j r1 s3 show ?thesis by (auto simp: convert_file_def Let_def)
    next
      case (Inr m)
      with l j w r1 s4 show ?thesis by (auto simp: convert_file_def Let_def)
    qed
  qed
qed

text \<open>
  C10. After \<open>convert_file(input_path, output_path)\<close>, whether it returned or raised,
  \<open>input_file_path\<close> and \<open>protobuf_output_path\<close> hold what they held before the call
  (and so does \<open>json_output_path\<close>): only \<open>data\<close> and \<open>proto_data\<close> may differ. The
  result and the instance are the components of what \<open>convert_file\<close> returns here, so
  the statement covers every outcome.
\<close>

theorem convert_file_restores_paths:
  "input_file_path (snd (snd (convert_file input_path output_path fs self))) =
     input_file_path self \<and>
   protobuf_output_path (snd (snd (convert_file input_path output_path fs self))) =
     protobuf_output_path self \<and>
   json_output_path (snd (snd (convert_file input_path output_path fs self))) =
     json_output_path self"
proof -
  from convert_file_final [of input_path output_path fs self]
  obtain s where "snd (snd (convert_file input_path output_path fs self)) = restore_paths self s"
    and "json_output_path s = json_output_path self" by blast
  then show ?thesis by (simp add: restore_paths_def)
qed

lemma serialize_a1:
  "SerializeToString [(''a'', number_value 0x3FF0000000000000)] =
     [CHR 0x0A, CHR 0x0E, CHR 0x0A, CHR 0x01, CHR ''a'', CHR 0x12, CHR 0x09, CHR 0x11,
      CHR 0x00, CHR 0x00, CHR 0x00, CHR 0x00, CHR 0x00, CHR 0x00, CHR 0xF0, CHR 0x3F]"
  by code_simp

text \<open>
  A run of \<open>convert_file\<close> that succeeds, on a file holding \<open>{"a": 1}\<close>: the bytes are
  written to the path given, and the instance keeps its own paths.
\<close>

lemma convert_file_success:
  "convert_file ''in.json'' ''out.pb''
     \<lparr>files = [''in.json'' \<mapsto> ''{\"a\": 1}''], writable = (\<lambda>p. True)\<rparr>
     (init ''complex.json'' ''complex-output.pb'' ''output_from_protobuf.json'') =
   (Inr (),
    \<lparr>files = [''in.json'' \<mapsto> ''{\"a\": 1}'',
               ''out.pb'' \<mapsto>
                 [CHR 0x0A, CHR 0x0E, CHR 0x0A, CHR 0x01, CHR ''a'', CHR 0x12, CHR 0x09, CHR 0x11,
                  CHR 0x00, CHR 0x00, CHR 0x00, CHR 0x00, CHR 0x00, CHR 0x00, CHR 0xF0, CHR 0x3F]],
      writable = (\<lambda>p. True)\<rparr>,
    (init ''complex.json'' ''complex-output.pb'' ''output_from_protobuf.json'')
      \<lparr>data := JDict [(''a'', JInt 1)],
       proto_data := Some [(''a'', number_value 0x3FF0000000000000)]\<rparr>)"
  by (simp add: convert_file_def load_data_def json_loads_a1 valid_utf8_a1
      json_to_protobuf_def ParseDict_a1 restore_paths_def init_def save_protobuf_def
      truthy_proto_def write_protobuf_def serialize_a1)

text \<open>
  Witness for C10: a run that raises (no input file) and leaves the three paths of the
  instance as they were.
\<close>

theorem convert_file_restores_paths_witness:
  "fst (convert_file ''in.json'' ''out.pb'' \<lparr>files = Map.empty, writable = (\<lambda>p. True)\<rparr>
          (init ''complex.json'' ''complex-output.pb'' ''output_from_protobuf.json'')) =
     Inl FileNotFoundError \<and>
   input_file_path
     (snd (snd (convert_file ''in.json'' ''out.pb'' \<lparr>files = Map.empty, writable = (\<lambda>p. True)\<rparr>
        (init ''complex.json'' ''complex-output.pb'' ''output_from_protobuf.json'')))) =
     ''complex.json'' \<and>
   protobuf_output_path
     (snd (snd (convert_file ''in.json'' ''out.pb'' \<lparr>files = Map.empty, writable = (\<lambda>p. True)\<rparr>
        (init ''complex.json'' ''complex-output.pb'' ''output_from_protobuf.json'')))) =
     ''complex-output.pb''"
proof -
  have "fst (convert_file ''in.json'' ''out.pb'' \<lparr>files = Map.empty, writable = (\<lambda>p. True)\<rparr>
          (init ''complex.json'' ''complex-output.pb'' ''output_from_protobuf.json'')) =
        Inl FileNotFoundError"
    by (simp add: convert_file_def load_data_def)
  with convert_file_restores_paths
    [where input_path = "''in.json''" and output_path = "''out.pb''"
       and fs = "\<lparr>files = Map.empty, writable = (\<lambda>p. True)\<rparr>"
       and self = "init ''complex.json'' ''complex-output.pb'' ''output_from_protobuf.json''"]
  show ?thesis by (simp add: init_def)
qed

section \<open>The empty object\<close>

text \<open>
  C9. When the loaded document is the empty object, \<open>data\<close> is \<open>{}\<close> and the converted
  \<open>Struct\<close> has no field, and both are false for Python: \<open>save_protobuf\<close> raises
  \<open>ValueError\<close> although data was loaded and converted. \<open>save_json\<close> raises
  \<open>ValueError\<close> when \<open>data\<close> is \<open>{}\<close> and no protobuf data is held. The third part
  follows \<open>load_data\<close> and \<open>json_to_protobuf\<close> on a file that holds \<open>{}\<close>.
\<close>

theorem empty_object_treated_as_absent:
  "(data self = JDict [] \<and> proto_data self = Some [] \<longrightarrow>
      save_protobuf fs self = (Inl ValueError, fs, self)) \<and>
   (data self = JDict [] \<and> proto_data self = None \<longrightarrow>
      save_json dump output_file_path fs self = (Inl ValueError, fs, self)) \<and>
   (files fs (input_file_path self) = Some ''{}'' \<longrightarrow>
      (case load_data fs self of
         (r1, self1) \<Rightarrow>
           (case json_to_protobuf JNull self1 of
              (r2, self2) \<Rightarrow>
                r1 = Inr (JDict []) \<and> r2 = Inr [] \<and>
                data self2 = JDict [] \<and> proto_data self2 = Some [] \<and>
                save_protobuf fs self2 = (Inl ValueError, fs, self2))))"
  by (simp add: save_protobuf_def save_json_def truthy_proto_def load_data_def
      json_loads_empty_dict valid_utf8_braces json_to_protobuf_def ParseDict_def)

text \<open>Witness for C9: the two states of the claim, and a file system whose input file holds \<open>{}\<close>.\<close>

theorem empty_object_treated_as_absent_witness:
  "save_protobuf \<lparr>files = [''a.json'' \<mapsto> ''{}''], writable = (\<lambda>p. True)\<rparr>
     ((init ''a.json'' ''a.pb'' ''b.json'')\<lparr>data := JDict [], proto_data := Some []\<rparr>) =
   (Inl ValueError, \<lparr>files = [''a.json'' \<mapsto> ''{}''], writable = (\<lambda>p. True)\<rparr>,
     (init ''a.json'' ''a.pb'' ''b.json'')\<lparr>data := JDict [], proto_data := Some []\<rparr>) \<and>
   save_json (\<lambda>j. (Inr (), [])) None \<lparr>files = [''a.json'' \<mapsto> ''{}''], writable = (\<lambda>p. True)\<rparr>
     ((init ''a.json'' ''a.pb'' ''b.json'')\<lparr>data := JDict []\<rparr>) =
   (Inl ValueError, \<lparr>files = [''a.json'' \<mapsto> ''{}''], writable = (\<lambda>p. True)\<rparr>,
     (init ''a.json'' ''a.pb'' ''b.json'')\<lparr>data := JDict []\<rparr>) \<and>
   fst (load_data \<lparr>files = [''a.json'' \<mapsto> ''{}''], writable = (\<lambda>p. True)\<rparr>
          (init ''a.json'' ''a.pb'' ''b.json'')) = Inr (JDict [])"
  using empty_object_treated_as_absent
    [where self = "(init ''a.json'' ''a.pb'' ''b.json'')\<lparr>data := JDict [], proto_data := Some []\<rparr>"
       and fs = "\<lparr>files = [''a.json'' \<mapsto> ''{}''], writable = (\<lambda>p. True)\<rparr>"]
    empty_object_treated_as_absent
    [where self = "(init ''a.json'' ''a.pb'' ''b.json'')\<lparr>data := JDict []\<rparr>"
       and fs = "\<lparr>files = [''a.json'' \<mapsto> ''{}''], writable = (\<lambda>p. True)\<rparr>"
       and dump = "\<lambda>j. (Inr (), [])" and output_file_path = None]
    empty_object_treated_as_absent
    [where self = "init ''a.json'' ''a.pb'' ''b.json''"
       and fs = "\<lparr>files = [''a.json'' \<mapsto> ''{}''], writable = (\<lambda>p. True)\<rparr>"]
  by (simp add: init_def split: prod.splits)

text \<open>
  C1, at the input the code fails on. The value tree \<open>{}\<close> is a map: \<open>json_to_protobuf\<close>
  converts it to the \<open>Struct\<close> without fields, whose binary form is the empty byte
  string; \<open>load_protobuf\<close> reads those bytes back to the same \<open>Struct\<close>; and
  \<open>protobuf_to_json\<close> then raises \<open>ValueError\<close> instead of returning \<open>{}\<close>, because
  its test \<open>if not self.proto_data\<close> is true of a \<open>Struct\<close> without fields.
\<close>

theorem round_trip_empty_object:
  "(case json_to_protobuf (JDict []) self of
      (r1, self1) \<Rightarrow>
        r1 = Inr [] \<and> SerializeToString [] = [] \<and>
        (files fs (protobuf_output_path self1) = Some (SerializeToString []) \<longrightarrow>
           (case load_protobuf fs self1 of
              (r2, self2) \<Rightarrow> r2 = Inr [] \<and> protobuf_to_json self2 = (Inl ValueError, self2))))"
  by (simp add: json_to_protobuf_def ParseDict_def SerializeToString_def load_protobuf_def
      ParseFromString_def protobuf_to_json_def)

text \<open>Witness for C1: the round trip of \<open>{}\<close> through the file \<open>a.pb\<close>, which holds no byte.\<close>

theorem round_trip_empty_object_witness:
  "files \<lparr>files = [''a.pb'' \<mapsto> []], writable = (\<lambda>p. True)\<rparr>
     (protobuf_output_path (snd (json_to_protobuf (JDict []) (init ''a.json'' ''a.pb'' ''b.json'')))) =
     Some (SerializeToString []) \<and>
   fst (protobuf_to_json
     (snd (load_protobuf \<lparr>files = [''a.pb'' \<mapsto> []], writable = (\<lambda>p. True)\<rparr>
        (snd (json_to_protobuf (JDict []) (init ''a.json'' ''a.pb'' ''b.json'')))))) =
     Inl ValueError"
  using round_trip_empty_object
    [where self = "init ''a.json'' ''a.pb'' ''b.json''"
       and fs = "\<lparr>files = [''a.pb'' \<mapsto> []], writable = (\<lambda>p. True)\<rparr>"]
  by (simp add: init_def json_to_protobuf_def ParseDict_def SerializeToString_def
      split: prod.splits)

section \<open>The empty buffer\<close>

text \<open>
  C4, as amended. Decoding a buffer of zero length does not fail: \<open>load_protobuf\<close> on a
  file without a byte returns the \<open>Struct\<close> without fields and stores it in
  \<open>proto_data\<close>; no \<open>DecodeError\<close> is raised.
\<close>

theorem load_protobuf_zero_length:
  "files fs (protobuf_output_path self) = Some [] \<Longrightarrow>
     load_protobuf fs self = (Inr [], self\<lparr>proto_data := Some []\<rparr>)"
  by (simp add: load_protobuf_def ParseFromString_def)

text \<open>Witness for C4: the file \<open>a.pb\<close> holds no byte.\<close>

theorem load_protobuf_zero_length_witness:
  "files \<lparr>files = [''a.pb'' \<mapsto> []], writable = (\<lambda>p. True)\<rparr>
     (protobuf_output_path (init ''a.json'' ''a.pb'' ''b.json'')) = Some [] \<and>
   load_protobuf \<lparr>files = [''a.pb'' \<mapsto> []], writable = (\<lambda>p. True)\<rparr>
     (init ''a.json'' ''a.pb'' ''b.json'') =
   (Inr [], (init ''a.json'' ''a.pb'' ''b.json'')\<lparr>proto_data := Some []\<rparr>)"
proof -
  have h: "files \<lparr>files = [''a.pb'' \<mapsto> []], writable = (\<lambda>p. True)\<rparr>
     (protobuf_output_path (init ''a.json'' ''a.pb'' ''b.json'')) = Some []"
    by (simp add: init_def)
  from h load_protobuf_zero_length [OF h] show ?thesis by simp
qed

text \<open>
  Counterexample to C4 as stated: \<open>ParseFromString\<close> accepts the empty byte string, and
  \<open>load_protobuf\<close> on the default output path, the file being empty, succeeds.
\<close>

theorem zero_length_buffer_decodes:
  "ParseFromString [] = Inr [] \<and>
   load_protobuf \<lparr>files = [''complex-output.pb'' \<mapsto> []], writable = (\<lambda>p. True)\<rparr>
     (init ''complex.json'' ''complex-output.pb'' ''output_from_protobuf.json'') =
   (Inr [],
    (init ''complex.json'' ''complex-output.pb'' ''output_from_protobuf.json'')
      \<lparr>proto_data := Some []\<rparr>)"
  by (simp add: load_protobuf_def ParseFromString_def init_def)

section \<open>A list at the top level\<close>

text \<open>
  C2, at the input the code fails on. The text \<open>[]\<close> parses to the empty list, and
  \<open>convert_string\<close> then raises \<open>ParseError\<close>: \<open>ParseDict\<close> accepts a \<open>dict\<close> only.
  No byte is produced and the instance is unchanged, so there is nothing to decode back.
\<close>

theorem convert_string_empty_list:
  "json_loads ''[]'' = Inr (JList []) \<and> convert_string ''[]'' self = (Inl ParseError, self)"
  by (simp add: json_loads_empty_list convert_string_def json_to_protobuf_def ParseDict_def)

section \<open>Numbers that are not finite\<close>
















section \<open>Duplicate keys\<close>

lemma map_of_foldl_update:
  "map_of (foldl (\<lambda>d (k, v). AList.update k v d) acc pairs) = map_of (rev pairs @ acc)"
proof (induction pairs arbitrary: acc)
  case Nil
  then show ?case by simp
next
  case (Cons p ps)
  obtain k v where p: "p = (k, v)" by (cases p)
  show ?case
    by (simp add: p Cons.IH map_add_def update_conv' fun_eq_iff split: option.splits)
qed

lemma dict_last_wins: "map_of (dict pairs) = map_of (rev pairs)"
  by (simp add: dict_def map_of_foldl_update)

lemma distinct_foldl_update:
  "distinct (map fst acc) \<Longrightarrow>
     distinct (map fst (foldl (\<lambda>d (k, v). AList.update k v d) acc pairs))"
  by (induction pairs arbitrary: acc) (auto simp: distinct_update)

lemma dict_distinct: "distinct (map fst (dict pairs))"
  by (simp add: dict_def distinct_foldl_update)

lemma json_loads_dup: "json_loads ''{\"a\":1,\"a\":2}'' = Inr (JDict [(''a'', JInt 2)])"
  by code_simp

text \<open>
  C5. The text \<open>{"a":1,"a":2}\<close> parses, and to the map with the single key \<open>a\<close> bound to 2.
  In general the \<open>dict\<close> an object is built with has every key once, bound to the value of
  its last occurrence among the pairs (\<open>map_of\<close> finds the first pair of a key, here in the
  reversed list). \<open>load_data\<close> on a file with that text stores this map.
\<close>

theorem duplicate_key_last_wins:
  "json_loads ''{\"a\":1,\"a\":2}'' = Inr (JDict [(''a'', JInt 2)]) \<and>
   dict [(''a'', JInt 1), (''a'', JInt 2)] = [(''a'', JInt 2)] \<and>
   distinct (map fst (dict pairs)) \<and>
   map_of (dict pairs) = map_of (rev pairs) \<and>
   (files fs (input_file_path self) = Some ''{\"a\":1,\"a\":2}'' \<longrightarrow>
      load_data fs self =
        (Inr (JDict [(''a'', JInt 2)]), self\<lparr>data := JDict [(''a'', JInt 2)]\<rparr>))"
proof -
  have v: "valid_utf8 ''{\"a\":1,\"a\":2}''" by code_simp
  have d: "dict [(''a'', JInt 1), (''a'', JInt 2)] = [(''a'', JInt 2)]" by code_simp
  show ?thesis
    by (simp add: json_loads_dup dict_distinct dict_last_wins d load_data_def v)
qed

text \<open>Witness for C5: the file \<open>a.json\<close> holds the text.\<close>

theorem duplicate_key_last_wins_witness:
  "files \<lparr>files = [''a.json'' \<mapsto> ''{\"a\":1,\"a\":2}''], writable = (\<lambda>p. True)\<rparr>
     (input_file_path (init ''a.json'' ''a.pb'' ''b.json'')) = Some ''{\"a\":1,\"a\":2}'' \<and>
   load_data \<lparr>files = [''a.json'' \<mapsto> ''{\"a\":1,\"a\":2}''], writable = (\<lambda>p. True)\<rparr>
     (init ''a.json'' ''a.pb'' ''b.json'') =
   (Inr (JDict [(''a'', JInt 2)]),
    (init ''a.json'' ''a.pb'' ''b.json'')\<lparr>data := JDict [(''a'', JInt 2)]\<rparr>)"
  using duplicate_key_last_wins
    [where fs = "\<lparr>files = [''a.json'' \<mapsto> ''{\"a\":1,\"a\":2}''], writable = (\<lambda>p. True)\<rparr>"
       and self = "init ''a.json'' ''a.pb'' ''b.json''"]
  by (simp add: init_def)

section \<open>The text \<open>null\<close>\<close>

lemma serialize_k:
  "SerializeToString [(''k'', bool_value True)] =
     [CHR 0x0A, CHR 0x07, CHR 0x0A, CHR 0x01, CHR ''k'', CHR 0x12, CHR 0x02, CHR 0x20, CHR 0x01]"
  by code_simp

text \<open>
  Where the result of \<open>convert_string\<close> comes from: the text and, only when the text
  parses to \<open>None\<close>, the stored \<open>data\<close>. \<open>convert_string\<close> never assigns \<open>data\<close>, so a
  call repeated on the same instance returns what the first call returned.
\<close>

lemma convert_string_result:
  "fst (convert_string json_string self) =
     (case json_loads json_string of
        Inl e \<Rightarrow> Inl e
      | Inr json_data \<Rightarrow>
          if json_data = JNull \<and> data self = JNull then Inl ValueError
          else
            (case ParseDict (if json_data = JNull then data self else json_data) of
               Inl e \<Rightarrow> Inl e
             | Inr m \<Rightarrow> Inr (SerializeToString m)))"
  by (simp add: convert_string_def json_to_protobuf_def split: sum.splits)

lemma convert_string_data: "data (snd (convert_string json_string self)) = data self"
  by (simp add: convert_string_def json_to_protobuf_def split: sum.splits)

lemma convert_string_repeated:
  "fst (convert_string json_string (snd (convert_string json_string self))) =
     fst (convert_string json_string self)"
proof -
  have "fst (convert_string json_string (snd (convert_string json_string self))) =
     (case json_loads json_string of
        Inl e \<Rightarrow> Inl e
      | Inr json_data \<Rightarrow>
          if json_data = JNull \<and> data (snd (convert_string json_string self)) = JNull
          then Inl ValueError
          else
            (case ParseDict (if json_data = JNull then data (snd (convert_string json_string self))
                             else json_data) of
               Inl e \<Rightarrow> Inl e
             | Inr m \<Rightarrow> Inr (SerializeToString m)))"
    by (rule convert_string_result)
  also have "\<dots> =
     (case json_loads json_string of
        Inl e \<Rightarrow> Inl e
      | Inr json_data \<Rightarrow>
          if json_data = JNull \<and> data self = JNull then Inl ValueError
          else
            (case ParseDict (if json_data = JNull then data self else json_data) of
               Inl e \<Rightarrow> Inl e
             | Inr m \<Rightarrow> Inr (SerializeToString m)))"
    by (simp only: convert_string_data)
  also have "\<dots> = fst (convert_string json_string self)"
    by (rule convert_string_result [symmetric])
  finally show ?thesis .
qed

lemma convert_string_not_null:
  "json_loads json_string \<noteq> Inr JNull \<Longrightarrow>
     fst (convert_string json_string self) = fst (convert_string json_string self')"
  by (simp add: convert_string_result split: sum.splits)

text \<open>
  C8, at the input the code fails on. Two calls of \<open>convert_string\<close> with the same text
  \<open>null\<close>: on a new instance the call raises \<open>ValueError\<close>; on an instance whose
  \<open>data\<close> is \<open>{"k": true}\<close> it returns nine bytes, the encoding of that stored map.
  \<open>json.loads\<close> gives \<open>None\<close> for the text, and \<open>json_to_protobuf\<close> takes \<open>None\<close> for
  a missing argument.
\<close>

theorem convert_string_null_depends_on_state:
  "convert_string ''null'' (init ''a.json'' ''a.pb'' ''b.json'') =
     (Inl ValueError, init ''a.json'' ''a.pb'' ''b.json'') \<and>
   convert_string ''null''
     ((init ''a.json'' ''a.pb'' ''b.json'')\<lparr>data := JDict [(''k'', JBool True)]\<rparr>) =
     (Inr [CHR 0x0A, CHR 0x07, CHR 0x0A, CHR 0x01, CHR ''k'', CHR 0x12, CHR 0x02, CHR 0x20, CHR 0x01],
      (init ''a.json'' ''a.pb'' ''b.json'')
        \<lparr>data := JDict [(''k'', JBool True)], proto_data := Some [(''k'', bool_value True)]\<rparr>)"
  by (simp add: convert_string_def json_loads_null json_to_protobuf_def init_def ParseDict_k
      serialize_k)

section \<open>What \<open>json.loads\<close> accepts\<close>

subsection \<open>White space and strings\<close>

lemma ws_Nil [simp]: "ws []" by (simp add: ws_def)
lemma ws_append [simp]: "ws (a @ b) = (ws a \<and> ws b)" by (simp add: ws_def)

lemma skip_ws_split: "\<exists>w. s = w @ skip_ws s \<and> ws w"
proof -
  have "s = takeWhile is_ws s @ skip_ws s" by (simp add: skip_ws_def)
  moreover have "ws (takeWhile is_ws s)"
    by (simp add: ws_def list_all_iff) (meson set_takeWhileD)
  ultimately show ?thesis by blast
qed

lemma hex_value_is_hex: "hex_value c = Some n \<Longrightarrow> is_hex c"
  by (auto simp: hex_value_def is_hex_def Let_def split: if_splits)

lemma decode_uXXXX_hex:
  assumes "decode_uXXXX s = Some u"
  shows "\<exists>h1 h2 h3 h4. s = h1 # h2 # h3 # h4 # drop 4 s \<and> is_hex h1 \<and> is_hex h2 \<and> is_hex h3 \<and> is_hex h4"
proof -
  from assms obtain a b c d where m: "map hex_value (take 4 s) = [Some a, Some b, Some c, Some d]"
    by (auto simp: decode_uXXXX_def split: list.splits option.splits)
  then obtain h1 h2 h3 h4 where t: "take 4 s = [h1, h2, h3, h4]"
    by (auto simp: map_eq_Cons_conv)
  with m have "is_hex h1" "is_hex h2" "is_hex h3" "is_hex h4"
    by (auto intro: hex_value_is_hex)
  moreover from t have "s = h1 # h2 # h3 # h4 # drop 4 s"
    by (metis append_take_drop_id append_Cons append_Nil)
  ultimately show ?thesis by blast
qed

lemma str_cons_Inr:
  "str_cons chunk r = Inr (str, rest) \<Longrightarrow> \<exists>str'. r = Inr (str', rest)"
  by (auto simp: str_cons_def split: sum.splits)

lemma BACKSLASH_escape:
  "BACKSLASH e = Some ch \<Longrightarrow>
     e \<in> set [CHR 0x22, CHR 0x5C, CHR ''/'', CHR ''b'', CHR ''f'', CHR ''n'', CHR ''r'', CHR ''t'']"
  by (auto simp: BACKSLASH_def split: if_splits)

lemma take2_drop:
  "take 2 s = [a, b] \<Longrightarrow> s = a # b # drop 2 s"
  by (metis append_take_drop_id append_Cons append_Nil)

lemma scanstring_sound:
  "scanstring s = Inr (str, rest) \<Longrightarrow> \<exists>body. s = body @ CHR 0x22 # rest \<and> json_chars body"
proof (induction "length s" arbitrary: s str rule: less_induct)
  case less
  note IH = less.hyps
  show ?case
  proof (cases s)
    case Nil
    with less.prems show ?thesis by simp
  next
    case (Cons c cs)
    show ?thesis
    proof (cases "c = CHR 0x22")
      case True
      with less.prems Cons have "rest = cs" by simp
      with True Cons show ?thesis by (intro exI [of _ "[]"]) (simp add: chars_end)
    next
      case nq: False
      show ?thesis
      proof (cases "c = CHR 0x5C")
        case False
        with nq less.prems Cons have ge: "\<not> of_char c < (0x20 :: nat)"
          and r: "str_cons [c] (scanstring cs) = Inr (str, rest)"
          by (auto split: if_splits)
        from str_cons_Inr [OF r] obtain str' where "scanstring cs = Inr (str', rest)" by blast
        from IH [OF _ this] Cons obtain body where "cs = body @ CHR 0x22 # rest" "json_chars body"
          by auto
        with nq False ge Cons show ?thesis
          by (intro exI [of _ "c # body"]) (simp add: chars_plain)
      next
        case bs: True
        from less.prems Cons nq bs obtain esc cs' where cs: "cs = esc # cs'"
          by (cases cs) auto
        show ?thesis
        proof (cases "esc = CHR ''u''")
          case False
          with less.prems Cons nq bs cs obtain ch where b: "BACKSLASH esc = Some ch"
            and r: "str_cons [ch] (scanstring cs') = Inr (str, rest)"
            by (auto split: option.splits)
          from str_cons_Inr [OF r] obtain str' where "scanstring cs' = Inr (str', rest)" by blast
          from IH [OF _ this] Cons cs obtain body where "cs' = body @ CHR 0x22 # rest" "json_chars body"
            by auto
          with Cons cs bs BACKSLASH_escape [OF b] show ?thesis
            by (intro exI [of _ "CHR 0x5C # esc # body"]) (simp add: chars_escape)
        next
          case u: True
          with less.prems Cons nq bs cs obtain uni where d: "decode_uXXXX cs' = Some uni"
            by (auto split: option.splits)
          from decode_uXXXX_hex [OF d] obtain h1 h2 h3 h4 where
            h: "cs' = h1 # h2 # h3 # h4 # drop 4 cs'" "is_hex h1" "is_hex h2" "is_hex h3" "is_hex h4"
            by blast
          have one: "\<exists>body. s = body @ CHR 0x22 # rest \<and> json_chars body"
            if "scanstring (drop 4 cs') = Inr (str', rest)" for str'
          proof -
            have "length (drop 4 cs') < length s" using Cons cs by simp
            from IH [OF this that] obtain body where
              b: "drop 4 cs' = body @ CHR 0x22 # rest" "json_chars body" by blast
            have "s = (CHR 0x5C # CHR ''u'' # h1 # h2 # h3 # h4 # body) @ CHR 0x22 # rest"
              using Cons cs bs u h(1) b(1) by (metis append_Cons)
            moreover have "json_chars (CHR 0x5C # CHR ''u'' # h1 # h2 # h3 # h4 # body)"
              using h b by (simp add: chars_unicode)
            ultimately show ?thesis by blast
          qed
          show ?thesis
          proof (cases "0xD800 \<le> uni \<and> uni \<le> 0xDBFF \<and> take 2 (drop 4 cs') = [CHR 0x5C, CHR ''u'']")
            case False
            with less.prems Cons nq bs cs u d
            have "str_cons (chr uni) (scanstring (drop 4 cs')) = Inr (str, rest)"
              by (simp split: if_splits)
            from str_cons_Inr [OF this] one show ?thesis by blast
          next
            case pair: True
            with less.prems Cons nq bs cs u d obtain uni2 where d2: "decode_uXXXX (drop 6 cs') = Some uni2"
              by (auto split: option.splits)
            show ?thesis
            proof (cases "0xDC00 \<le> uni2 \<and> uni2 \<le> 0xDFFF")
              case False
              with less.prems Cons nq bs cs u d d2 pair
              have "str_cons (chr uni) (scanstring (drop 4 cs')) = Inr (str, rest)"
                by (simp split: if_splits)
              from str_cons_Inr [OF this] one show ?thesis by blast
            next
              case True
              with less.prems Cons nq bs cs u d d2 pair
              have "str_cons (chr (0x10000 + ((uni - 0xD800) * 1024 + (uni2 - 0xDC00))))
                      (scanstring (drop 10 cs')) = Inr (str, rest)"
                by (simp split: if_splits)
              from str_cons_Inr [OF this] obtain str' where
                "scanstring (drop 10 cs') = Inr (str', rest)" by blast
              moreover have "length (drop 10 cs') < length s" using Cons cs by simp
              ultimately obtain body where
                b: "drop 10 cs' = body @ CHR 0x22 # rest" "json_chars body"
                using IH by blast
              from decode_uXXXX_hex [OF d2] obtain g1 g2 g3 g4 where
                g: "drop 6 cs' = g1 # g2 # g3 # g4 # drop 10 cs'"
                   "is_hex g1" "is_hex g2" "is_hex g3" "is_hex g4"
                by auto
              from pair have "drop 4 cs' = CHR 0x5C # CHR ''u'' # drop 6 cs'"
                using take2_drop [of "drop 4 cs'"] by simp
              with h(1) g(1) b(1)
              have "cs' = h1 # h2 # h3 # h4 # CHR 0x5C # CHR ''u'' # g1 # g2 # g3 # g4 # body @ CHR 0x22 # rest"
                by metis
              then have "s = (CHR 0x5C # CHR ''u'' # h1 # h2 # h3 # h4 #
                              CHR 0x5C # CHR ''u'' # g1 # g2 # g3 # g4 # body) @ CHR 0x22 # rest"
                using Cons cs bs u by simp
              moreover have "json_chars (CHR 0x5C # CHR ''u'' # h1 # h2 # h3 # h4 #
                              CHR 0x5C # CHR ''u'' # g1 # g2 # g3 # g4 # body)"
                using h g b by (simp add: chars_unicode)
              ultimately show ?thesis by blast
            qed
          qed
        qed
      qed
    qed
  qed
qed

subsection \<open>Numbers and literals\<close>

lemma takeWhile_digits: "list_all is_digit (takeWhile is_digit s)"
  by (simp add: list_all_iff) (meson set_takeWhileD)

lemma match_integer_sound:
  assumes "match_integer s = Some (i, s1)"
  shows "s = i @ s1 \<and> (\<exists>sign i'. i = sign @ i' \<and> (sign = [] \<or> sign = ''-'') \<and> json_int i')"
proof -
  define sign where "sign = (if s \<noteq> [] \<and> hd s = CHR ''-'' then ''-'' else [])"
  have s: "s = sign @ drop (length sign) s"
    by (cases s) (auto simp: sign_def)
  from assms obtain d s2 where d: "drop (length sign) s = d # s2"
    by (auto simp: match_integer_def sign_def Let_def split: list.splits)
  show ?thesis
  proof (cases "d = CHR ''0''")
    case True
    with assms d have "i = sign @ [d]" "s1 = s2"
      by (auto simp: match_integer_def sign_def Let_def split: list.splits if_splits)
    moreover have "json_int [d]" using True by (simp add: json_int_def)
    moreover have "sign = [] \<or> sign = ''-''" by (simp add: sign_def)
    moreover have "s = (sign @ [d]) @ s2" using s d by simp
    ultimately show ?thesis by blast
  next
    case False
    with assms d have dig: "is_digit d" and i: "i = sign @ d # takeWhile is_digit s2"
      and s1: "s1 = dropWhile is_digit s2"
      by (auto simp: match_integer_def sign_def Let_def split: list.splits if_splits)
    have "json_int (d # takeWhile is_digit s2)"
      using False dig takeWhile_digits by (auto simp: json_int_def)
    moreover have "s = i @ s1"
      using s d i s1 by (metis append_Cons append_assoc takeWhile_dropWhile_id)
    moreover have "sign = [] \<or> sign = ''-''" by (simp add: sign_def)
    ultimately show ?thesis using i by blast
  qed
qed

lemma match_frac_sound:
  assumes "match_frac s = (f, s2)"
  shows "s = f @ s2 \<and> json_frac f"
proof (cases "\<exists>d s'. s = CHR ''.'' # d # s' \<and> is_digit d")
  case True
  then obtain d s' where s: "s = CHR ''.'' # d # s'" and d: "is_digit d" by blast
  with assms have "f = CHR ''.'' # d # takeWhile is_digit s'" "s2 = dropWhile is_digit s'"
    by (auto simp: match_frac_def)
  with s d takeWhile_digits show ?thesis
    by (auto simp: json_frac_def digits_def)
next
  case False
  with assms have "f = []" "s2 = s"
    by (auto simp: match_frac_def split: list.splits if_splits)
  then show ?thesis by (simp add: json_frac_def)
qed

lemma match_exp_sound:
  assumes "match_exp s = (e, s3)"
  shows "s = e @ s3 \<and> json_exp e"
proof (cases "e = []")
  case True
  with assms have "s3 = s"
    by (auto simp: match_exp_def Let_def split: list.splits if_splits)
  with True show ?thesis by (simp add: json_exp_def)
next
  case False
  from False assms obtain c s1 where s: "s = c # s1" and c: "c = CHR ''e'' \<or> c = CHR ''E''"
    by (cases s) (auto simp: match_exp_def Let_def split: if_splits)
  define sign where "sign = (if s1 \<noteq> [] \<and> (hd s1 = CHR ''-'' \<or> hd s1 = CHR ''+'') then [hd s1] else [])"
  define s2 where "s2 = drop (length sign) s1"
  have s1: "s1 = sign @ s2"
    by (cases s1) (auto simp: sign_def s2_def)
  from False assms s c have ne: "s2 \<noteq> []" and dg: "is_digit (hd s2)"
    and e: "e = c # sign @ takeWhile is_digit s2" and s3: "s3 = dropWhile is_digit s2"
    by (auto simp: match_exp_def Let_def sign_def s2_def split: if_splits)
  have "digits (takeWhile is_digit s2)"
    using ne dg takeWhile_digits by (cases s2) (auto simp: digits_def)
  moreover have "sign = [] \<or> sign = ''+'' \<or> sign = ''-''"
    by (auto simp: sign_def)
  ultimately have "json_exp e"
    using e c unfolding json_exp_def by blast
  moreover have "s = e @ s3"
    using s s1 e s3 by simp
  ultimately show ?thesis by blast
qed

lemma scan_number_sound:
  assumes "scan_number s = Some (Inr (v, rest))"
  shows "\<exists>tok. s = tok @ rest \<and> json_number tok"
proof -
  from assms obtain i s1 where mi: "match_integer s = Some (i, s1)"
    by (auto simp: scan_number_def match_number_def split: option.splits)
  obtain f s2 where mf: "match_frac s1 = (f, s2)" by (cases "match_frac s1")
  obtain e s3 where me: "match_exp s2 = (e, s3)" by (cases "match_exp s2")
  from assms mi mf me have r: "rest = s3"
    by (auto simp: scan_number_def match_number_def split: if_splits sum.splits)
  from match_integer_sound [OF mi] obtain sign i' where
    i: "s = i @ s1" "i = sign @ i'" "sign = [] \<or> sign = ''-''" "json_int i'" by blast
  from match_frac_sound [OF mf] have f: "s1 = f @ s2" "json_frac f" by auto
  from match_exp_sound [OF me] have e: "s2 = e @ s3" "json_exp e" by auto
  have "json_number (sign @ i' @ f @ e)"
    unfolding json_number_def using i f e by blast
  moreover have "s = (sign @ i' @ f @ e) @ rest"
    using i f e r by simp
  ultimately show ?thesis by blast
qed

lemma take_eq_split: "take n s = t \<Longrightarrow> s = t @ drop n s"
  by (metis append_take_drop_id)

lemma scan_literal_sound:
  assumes "scan_literal s = Inr (v, rest)"
  shows "\<exists>tok. s = tok @ rest \<and> json_value True tok"
proof (cases "take 4 s = ''null''")
  case True
  with assms have "rest = drop 4 s" by (simp add: scan_literal_def)
  with take_eq_split [OF True] value_null [of True] show ?thesis by metis
next
  case n1: False
  show ?thesis
  proof (cases "take 4 s = ''true''")
    case True
    with assms n1 have "rest = drop 4 s" by (simp add: scan_literal_def)
    with take_eq_split [OF True] value_true [of True] show ?thesis by metis
  next
    case n2: False
    show ?thesis
    proof (cases "take 5 s = ''false''")
      case True
      with assms n1 n2 have "rest = drop 5 s" by (simp add: scan_literal_def)
      with take_eq_split [OF True] value_false [of True] show ?thesis by metis
    next
      case n3: False
      show ?thesis
      proof (cases "scan_number s")
        case (Some r)
        with assms n1 n2 n3 have "scan_number s = Some (Inr (v, rest))"
          by (simp add: scan_literal_def)
        from scan_number_sound [OF this] show ?thesis using value_number by blast
      next
        case None
        show ?thesis
        proof (cases "take 3 s = ''NaN''")
          case True
          with assms n1 n2 n3 None have "rest = drop 3 s" by (simp add: scan_literal_def)
          with take_eq_split [OF True] value_NaN [of True] show ?thesis by metis
        next
          case n5: False
          show ?thesis
          proof (cases "take 8 s = ''Infinity''")
            case True
            with assms n1 n2 n3 None n5 have "rest = drop 8 s" by (simp add: scan_literal_def)
            with take_eq_split [OF True] value_Infinity [of True] show ?thesis by metis
          next
            case n6: False
            with assms n1 n2 n3 None n5 have t: "take 9 s = ''-Infinity''" and "rest = drop 9 s"
              by (auto simp: scan_literal_def split: if_splits)
            with take_eq_split [OF t] value_neg_Infinity [of True] show ?thesis by metis
          qed
        qed
      qed
    qed
  qed
qed

subsection \<open>The steps of objects and arrays\<close>

lemma elements_prepend:
  assumes "ws w" "json_elements ext es"
  shows "json_elements ext (w @ es)"
  using assms(2)
proof (cases rule: json_elements.cases)
  case (elements_one w1 v w2)
  with assms(1) json_value_json_elements_json_members.intros(13) [of "w @ w1" ext v w2]
  show ?thesis by simp
next
  case (elements_more w1 v w2 es')
  with assms(1) json_value_json_elements_json_members.intros(14) [of "w @ w1" ext v w2 es']
  show ?thesis by simp
qed

lemma members_prepend:
  assumes "ws w" "json_members ext ms"
  shows "json_members ext (w @ ms)"
  using assms(2)
proof (cases rule: json_members.cases)
  case (members_one w1 k w2 w3 v w4)
  with assms(1) json_value_json_elements_json_members.intros(15) [of "w @ w1" k w2 w3 ext v w4]
  show ?thesis by simp
next
  case (members_more w1 k w2 w3 v w4 ms')
  with assms(1) json_value_json_elements_json_members.intros(16) [of "w @ w1" k w2 w3 ext v w4 ms']
  show ?thesis by simp
qed

lemma skip_ws_Cons:
  assumes "skip_ws s = c # r"
  shows "\<exists>w. s = w @ c # r \<and> ws w"
  using skip_ws_split [of s] assms by auto

lemma object_start_None:
  assumes "object_start s = Inr None"
  shows "\<exists>w. s = w @ CHR ''}'' # tl (skip_ws s) \<and> ws w"
proof -
  from assms obtain r where "skip_ws s = CHR ''}'' # r"
    by (auto simp: object_start_def split: list.splits if_splits)
  with skip_ws_Cons [OF this] show ?thesis by simp
qed

lemma object_start_Some:
  assumes "object_start s = Inr (Some r)"
  shows "\<exists>w. s = w @ CHR 0x22 # r \<and> ws w"
proof -
  from assms have "skip_ws s = CHR 0x22 # r"
    by (auto simp: object_start_def split: list.splits if_splits)
  from skip_ws_Cons [OF this] show ?thesis .
qed

lemma object_key_sound:
  assumes "object_key s = Inr (key, s2)"
  shows "\<exists>body w2 w3. s = body @ CHR 0x22 # w2 @ CHR '':'' # w3 @ s2 \<and>
           json_chars body \<and> ws w2 \<and> ws w3"
proof -
  from assms obtain k' s1 where k': "scanstring s = Inr (k', s1)"
    by (auto simp: object_key_def split: sum.splits)
  from assms k' obtain r where c: "skip_ws s1 = CHR '':'' # r" and s2: "s2 = skip_ws r"
    and "k' = key"
    by (auto simp: object_key_def split: list.splits if_splits)
  with k' have k: "scanstring s = Inr (key, s1)" by simp
  from scanstring_sound [OF k] obtain body where b: "s = body @ CHR 0x22 # s1" "json_chars body"
    by blast
  from skip_ws_Cons [OF c] obtain w2 where w2: "s1 = w2 @ CHR '':'' # r" "ws w2" by blast
  from skip_ws_split [of r] s2 obtain w3 where w3: "r = w3 @ s2" "ws w3" by auto
  from b w2 w3 show ?thesis by blast
qed

lemma object_delimiter_sound:
  assumes "object_delimiter s = Inr (again, s')"
  shows "if again then \<exists>w w'. s = w @ CHR '','' # w' @ CHR 0x22 # s' \<and> ws w \<and> ws w'
         else \<exists>w. s = w @ CHR ''}'' # s' \<and> ws w"
proof -
  from assms obtain c s1 where c: "skip_ws s = c # s1"
    by (auto simp: object_delimiter_def split: list.splits)
  from skip_ws_Cons [OF c] obtain w where w: "s = w @ c # s1" "ws w" by blast
  show ?thesis
  proof (cases "c = CHR ''}''")
    case True
    with assms c have "\<not> again" "s' = s1"
      by (auto simp: object_delimiter_def)
    with w True show ?thesis by auto
  next
    case False
    with assms c have comma: "c = CHR '',''" and q: "skip_ws s1 = CHR 0x22 # s'" and m: "again"
      by (auto simp: object_delimiter_def split: list.splits if_splits)
    from skip_ws_Cons [OF q] obtain w' where "s1 = w' @ CHR 0x22 # s'" "ws w'" by blast
    with w comma m show ?thesis by auto
  qed
qed

lemma array_delimiter_sound:
  assumes "array_delimiter s = Inr (again, s')"
  shows "if again then \<exists>w w'. s = w @ CHR '','' # w' @ s' \<and> ws w \<and> ws w'
         else \<exists>w. s = w @ CHR '']'' # s' \<and> ws w"
proof -
  from assms obtain c s1 where c: "skip_ws s = c # s1"
    by (auto simp: array_delimiter_def split: list.splits)
  from skip_ws_Cons [OF c] obtain w where w: "s = w @ c # s1" "ws w" by blast
  show ?thesis
  proof (cases "c = CHR '']''")
    case True
    with assms c have "\<not> again" "s' = s1"
      by (auto simp: array_delimiter_def)
    with w True show ?thesis by auto
  next
    case False
    with assms c have comma: "c = CHR '',''" and q: "s' = skip_ws s1" and m: "again"
      by (auto simp: array_delimiter_def split: list.splits if_splits)
    from skip_ws_split [of s1] q obtain w' where "s1 = w' @ s'" "ws w'" by auto
    with w comma m show ?thesis by auto
  qed
qed

subsection \<open>A successful scan has read a value of the grammar\<close>

lemma scan_string_sound:
  assumes "scan_string s = Inr (v, rest)"
  shows "\<exists>tok. CHR 0x22 # s = tok @ rest \<and> json_value True tok"
proof -
  from assms obtain str where "scanstring s = Inr (str, rest)"
    by (auto simp: scan_string_def split: sum.splits)
  from scanstring_sound [OF this] obtain body where b: "s = body @ CHR 0x22 # rest" "json_chars body"
    by blast
  then have "json_strlit (CHR 0x22 # body @ [CHR 0x22])"
    by (auto simp: json_strlit_def)
  then have "json_value True (CHR 0x22 # body @ [CHR 0x22])"
    by (rule value_string)
  moreover have "CHR 0x22 # s = (CHR 0x22 # body @ [CHR 0x22]) @ rest"
    using b by simp
  ultimately show ?thesis by blast
qed

lemma scan_once_step:
  assumes p: "pairs_sound n" and a: "values_sound n"
  shows "scan_sound (Suc n)"
  unfolding scan_sound_def
proof (intro allI impI)
  fix depth s v rest
  assume r: "scan_once (Suc n) depth s = Inr (v, rest)"
  then obtain c t where s: "s = c # t"
    by (cases s) auto
  show "\<exists>tok. s = tok @ rest \<and> json_value True tok"
  proof (cases "c = CHR 0x22")
    case True
    with r s have "scan_string t = Inr (v, rest)" by simp
    from scan_string_sound [OF this] s True show ?thesis by simp
  next
    case nq: False
    show ?thesis
    proof (cases "c = CHR ''{''")
      case True
      from r s nq True have dp: "depth \<noteq> 0" by (auto split: if_splits)
      show ?thesis
      proof (cases "object_start t")
        case (Inl e)
        with r s nq True dp show ?thesis by simp
      next
        case (Inr o1)
        show ?thesis
        proof (cases o1)
          case None
          with r s nq True Inr dp have "rest = tl (skip_ws t)" by simp
          with object_start_None [of t] Inr None obtain w where w: "t = w @ CHR ''}'' # rest" "ws w"
            by auto
          from value_empty_object [OF w(2), of True] w(1) s True show ?thesis
            by (intro exI [of _ "CHR ''{'' # w @ ''}''"]) simp
        next
          case (Some s1)
          with r s nq True Inr dp have j: "JSONObject_pairs n (depth - 1) s1 [] = Inr (v, rest)"
            by simp
          with p obtain ms where ms: "CHR 0x22 # s1 = ms @ CHR ''}'' # rest" "json_members True ms"
            unfolding pairs_sound_def by blast
          from object_start_Some [of t s1] Inr Some obtain w where w: "t = w @ CHR 0x22 # s1" "ws w"
            by auto
          from members_prepend [OF w(2) ms(2)] have "json_value True (CHR ''{'' # (w @ ms) @ ''}'')"
            by (rule value_object)
          moreover have "s = (CHR ''{'' # (w @ ms) @ ''}'') @ rest"
            using s True w(1) ms(1) by simp
          ultimately show ?thesis by blast
        qed
      qed
    next
      case no: False
      show ?thesis
      proof (cases "c = CHR ''[''")
        case True
        from r s nq no True have dp: "depth \<noteq> 0" by (auto split: if_splits)
        obtain w where w: "t = w @ skip_ws t" "ws w" using skip_ws_split by blast
        show ?thesis
        proof (cases "skip_ws t \<noteq> [] \<and> hd (skip_ws t) = CHR '']''")
          case e: True
          with r s nq no True dp have rest: "rest = tl (skip_ws t)" by simp
          from e rest have "skip_ws t = CHR '']'' # rest" by (cases "skip_ws t") auto
          with w have "t = w @ CHR '']'' # rest" by simp
          with value_empty_array [OF w(2), of True] s True show ?thesis
            by (intro exI [of _ "CHR ''['' # w @ '']''"]) simp
        next
          case False
          with r s nq no True dp have "JSONArray_values n (depth - 1) (skip_ws t) [] = Inr (v, rest)"
            by (simp split: if_splits)
          with a obtain es where es: "skip_ws t = es @ CHR '']'' # rest" "json_elements True es"
            unfolding values_sound_def by blast
          from elements_prepend [OF w(2) es(2)] have "json_value True (CHR ''['' # (w @ es) @ '']'')"
            by (rule value_array)
          moreover have "s = (CHR ''['' # (w @ es) @ '']'') @ rest"
            using s True w(1) es(1) by (metis append_Cons append_assoc append_Nil)
          ultimately show ?thesis by blast
        qed
      next
        case False
        with r s nq no have "scan_literal s = Inr (v, rest)" by simp
        from scan_literal_sound [OF this] show ?thesis .
      qed
    qed
  qed
qed

lemma pairs_step:
  assumes sc: "scan_sound n" and p: "pairs_sound n"
  shows "pairs_sound (Suc n)"
  unfolding pairs_sound_def
proof (intro allI impI)
  fix depth s pairs v rest
  assume r: "JSONObject_pairs (Suc n) depth s pairs = Inr (v, rest)"
  then obtain key s2 where k: "object_key s = Inr (key, s2)"
    by (cases "object_key s") auto
  from r k obtain val s3 where v: "scan_once n depth s2 = Inr (val, s3)"
    by (cases "scan_once n depth s2") auto
  from r k v obtain again s5 where d: "object_delimiter s3 = Inr (again, s5)"
    by (cases "object_delimiter s3") auto
  from object_key_sound [OF k] obtain body w2 w3 where
    b: "s = body @ CHR 0x22 # w2 @ CHR '':'' # w3 @ s2" "json_chars body" "ws w2" "ws w3"
    by blast
  have ks: "json_strlit (CHR 0x22 # body @ [CHR 0x22])"
    using b(2) by (auto simp: json_strlit_def)
  from sc v obtain tok where tok: "s2 = tok @ s3" "json_value True tok"
    unfolding scan_sound_def by blast
  show "\<exists>ms. CHR 0x22 # s = ms @ CHR ''}'' # rest \<and> json_members True ms"
  proof (cases again)
    case False
    with r k v d have "rest = s5" by simp
    with object_delimiter_sound [OF d] False obtain w4 where w4: "s3 = w4 @ CHR ''}'' # rest" "ws w4"
      by auto
    have "json_members True ([] @ (CHR 0x22 # body @ [CHR 0x22]) @ w2 @ CHR '':'' # w3 @ tok @ w4)"
      by (rule members_one) (use ks b tok w4 in simp_all)
    moreover have "CHR 0x22 # s =
        ([] @ (CHR 0x22 # body @ [CHR 0x22]) @ w2 @ CHR '':'' # w3 @ tok @ w4) @ CHR ''}'' # rest"
      using b(1) tok(1) w4(1) by simp
    ultimately show ?thesis by blast
  next
    case True
    with r k v d have "JSONObject_pairs n depth s5 (pairs @ [(key, val)]) = Inr (v, rest)" by simp
    with p obtain ms where ms: "CHR 0x22 # s5 = ms @ CHR ''}'' # rest" "json_members True ms"
      unfolding pairs_sound_def by blast
    from object_delimiter_sound [OF d] True obtain w4 w5 where
      w: "s3 = w4 @ CHR '','' # w5 @ CHR 0x22 # s5" "ws w4" "ws w5" by auto
    have "json_members True
        ([] @ (CHR 0x22 # body @ [CHR 0x22]) @ w2 @ CHR '':'' # w3 @ tok @ w4 @ CHR '','' # (w5 @ ms))"
      by (rule members_more) (use ks b tok w members_prepend [OF w(3) ms(2)] in simp_all)
    moreover have "CHR 0x22 # s =
        ([] @ (CHR 0x22 # body @ [CHR 0x22]) @ w2 @ CHR '':'' # w3 @ tok @ w4 @ CHR '','' # (w5 @ ms))
          @ CHR ''}'' # rest"
      using b(1) tok(1) w(1) ms(1) by simp
    ultimately show ?thesis by blast
  qed
qed

lemma values_step:
  assumes sc: "scan_sound n" and a: "values_sound n"
  shows "values_sound (Suc n)"
  unfolding values_sound_def
proof (intro allI impI)
  fix depth s "values" v rest
  assume r: "JSONArray_values (Suc n) depth s values = Inr (v, rest)"
  then obtain val s1 where v: "scan_once n depth s = Inr (val, s1)"
    by (cases "scan_once n depth s") auto
  from r v obtain again s2 where d: "array_delimiter s1 = Inr (again, s2)"
    by (cases "array_delimiter s1") auto
  from sc v obtain tok where tok: "s = tok @ s1" "json_value True tok"
    unfolding scan_sound_def by blast
  show "\<exists>es. s = es @ CHR '']'' # rest \<and> json_elements True es"
  proof (cases again)
    case False
    with r v d have "rest = s2" by simp
    with array_delimiter_sound [OF d] False obtain w where w: "s1 = w @ CHR '']'' # rest" "ws w"
      by auto
    have "json_elements True ([] @ tok @ w)"
      by (rule elements_one) (use tok w in simp_all)
    moreover have "s = ([] @ tok @ w) @ CHR '']'' # rest"
      using tok(1) w(1) by simp
    ultimately show ?thesis by blast
  next
    case True
    with r v d have "JSONArray_values n depth s2 (values @ [val]) = Inr (v, rest)" by simp
    with a obtain es where es: "s2 = es @ CHR '']'' # rest" "json_elements True es"
      unfolding values_sound_def by blast
    from array_delimiter_sound [OF d] True obtain w w' where
      w: "s1 = w @ CHR '','' # w' @ s2" "ws w" "ws w'" by auto
    have "json_elements True ([] @ tok @ w @ CHR '','' # (w' @ es))"
      by (rule elements_more) (use tok w elements_prepend [OF w(3) es(2)] in simp_all)
    moreover have "s = ([] @ tok @ w @ CHR '','' # (w' @ es)) @ CHR '']'' # rest"
      using tok(1) w(1) es(1) by simp
    ultimately show ?thesis by blast
  qed
qed

lemma parser_sound: "scan_sound n \<and> pairs_sound n \<and> values_sound n"
proof (induction n)
  case 0
  show ?case by (simp add: scan_sound_def pairs_sound_def values_sound_def)
next
  case (Suc n)
  then show ?case using scan_once_step pairs_step values_step by blast
qed

lemma decode_sound:
  assumes "JSONDecoder_decode depth t = Inr v"
  shows "json_text True t"
proof -
  from assms obtain rest where r: "scan_once (2 * length t + 2) depth (skip_ws t) = Inr (v, rest)"
    and e: "skip_ws rest = []"
    by (auto simp: JSONDecoder_decode_def split: sum.splits if_splits)
  from parser_sound r obtain tok where tok: "skip_ws t = tok @ rest" "json_value True tok"
    unfolding scan_sound_def by blast
  obtain w1 where w1: "t = w1 @ skip_ws t" "ws w1" using skip_ws_split by blast
  from skip_ws_split [of rest] e have "ws rest" by auto
  with tok w1 show ?thesis
    unfolding json_text_def by metis
qed

lemma json_loads_sound: "json_loads t = Inr v \<Longrightarrow> json_text True t"
  unfolding json_loads_def by (rule decode_sound)

subsection \<open>What a failing scan raises\<close>








text \<open>The two limits pass from a text to every text it ends with.\<close>

lemma brackets_append: "brackets (a @ b) = brackets a + brackets b"
  by (simp add: brackets_def)

lemma digit_runs_ok_append: "digit_runs_ok (a @ b) \<Longrightarrow> digit_runs_ok b"
  by (induction a) auto


lemma within_limits_append: "within_limits depth (a @ b) \<Longrightarrow> within_limits depth b"
  using digit_runs_ok_append [of a b] by (simp add: within_limits_def brackets_append)


lemma raised_JSONDecodeError [simp]: "raised short depth s JSONDecodeError"
  by (simp add: raised_def)





lemma json_value_nonempty:
  assumes "json_value ext v"
  shows "v \<noteq> []"
  using assms
  by (cases rule: json_value.cases)
    (auto simp: json_strlit_def json_number_def json_int_def)

lemma scan_once_suffix:
  assumes "scan_once n depth s = Inr (v, rest)"
  shows "\<exists>tok. s = tok @ rest \<and> tok \<noteq> []"
proof -
  from parser_sound [of n] assms obtain tok where "s = tok @ rest" "json_value True tok"
    unfolding scan_sound_def by blast
  with json_value_nonempty [of True tok] show ?thesis by blast
qed

lemma scan_once_shorter:
  assumes "scan_once n depth s = Inr (v, rest)"
  shows "length rest < length s"
  using scan_once_suffix [OF assms] by auto


lemma object_start_shorter: "object_start t = Inr (Some s1) \<Longrightarrow> length s1 < length t"
  using object_start_Some [of t s1] by auto

lemma object_key_suffix:
  assumes "object_key s = Inr (key, s2)"
  shows "\<exists>a. s = a @ s2 \<and> 2 \<le> length a"
proof -
  from object_key_sound [OF assms] obtain body w2 w3 where
    "s = body @ CHR 0x22 # w2 @ CHR '':'' # w3 @ s2" by blast
  then have "s = (body @ CHR 0x22 # w2 @ CHR '':'' # w3) @ s2" by simp
  moreover have "2 \<le> length (body @ CHR 0x22 # w2 @ CHR '':'' # w3)" by simp
  ultimately show ?thesis by blast
qed

lemma object_key_shorter: "object_key s = Inr (key, s2) \<Longrightarrow> length s2 + 2 \<le> length s"
  using object_key_suffix [of s key s2] by auto

lemma object_delimiter_suffix:
  assumes "object_delimiter s = Inr (True, s')"
  shows "\<exists>a. s = a @ s' \<and> 2 \<le> length a"
proof -
  from object_delimiter_sound [OF assms] obtain w w' where
    "s = w @ CHR '','' # w' @ CHR 0x22 # s'" by auto
  then have "s = (w @ CHR '','' # w' @ [CHR 0x22]) @ s'" by simp
  moreover have "2 \<le> length (w @ CHR '','' # w' @ [CHR 0x22])" by simp
  ultimately show ?thesis by blast
qed

lemma object_delimiter_shorter:
  "object_delimiter s = Inr (True, s') \<Longrightarrow> length s' + 2 \<le> length s"
  using object_delimiter_suffix [of s s'] by auto

lemma array_delimiter_suffix:
  assumes "array_delimiter s = Inr (True, s')"
  shows "\<exists>a. s = a @ s' \<and> a \<noteq> []"
proof -
  from array_delimiter_sound [OF assms] obtain w w' where
    "s = w @ CHR '','' # w' @ s'" by auto
  then have "s = (w @ CHR '','' # w') @ s'" by simp
  then show ?thesis by blast
qed

lemma array_delimiter_shorter:
  "array_delimiter s = Inr (True, s') \<Longrightarrow> length s' < length s"
  using array_delimiter_suffix [of s s'] by auto

lemma length_skip_ws: "length (skip_ws s) \<le> length s"
  by (simp add: skip_ws_def length_dropWhile_le)









subsection \<open>The first argument of \<open>scan_once\<close>\<close>

lemma scan_bound_step:
  assumes p: "pairs_bound n" and a: "values_bound n"
  shows "scan_bound (Suc n)"
  unfolding scan_bound_def
proof (intro allI impI)
  fix m depth and s :: string
  assume f: "2 * length s < Suc n" "2 * length s < m"
  then obtain m' where m: "m = Suc m'" by (cases m) auto
  have P: "JSONObject_pairs n d s1 [] = JSONObject_pairs m' d s1 []"
    if "object_start (tl s) = Inr (Some s1)" "s \<noteq> []" for s1 d
  proof -
    from object_start_shorter [OF that(1)] that(2) have "length s1 + 2 \<le> length s"
      by (cases s) auto
    with f m have "2 * length s1 < n" "2 * length s1 < m'" by simp_all
    with p show ?thesis unfolding pairs_bound_def by blast
  qed
  have A: "JSONArray_values n d u [] = JSONArray_values m' d u []"
    if "length u < length s" for d u
  proof -
    from that f m have "2 * length u + 1 < n" "2 * length u + 1 < m'"
      by simp_all
    with a show ?thesis unfolding values_bound_def by blast
  qed
  have L: "length (skip_ws (tl s)) < length s" if "s \<noteq> []"
    using length_skip_ws [of "tl s"] that by (cases s) auto
  show "scan_once (Suc n) depth s = scan_once m depth s"
    unfolding m by (auto simp: P A L split: sum.splits option.splits)
qed

lemma pairs_bound_step:
  assumes sc: "scan_bound n" and p: "pairs_bound n"
  shows "pairs_bound (Suc n)"
  unfolding pairs_bound_def
proof (intro allI impI)
  fix m depth pairs and s :: string
  assume f: "2 * length s < Suc n" "2 * length s < m"
  then obtain m' where m: "m = Suc m'" by (cases m) auto
  have S: "scan_once n depth s2 = scan_once m' depth s2"
    if "object_key s = Inr (key, s2)" for key s2
  proof -
    from object_key_shorter [OF that] f m have "2 * length s2 < n" "2 * length s2 < m'"
      by simp_all
    with sc show ?thesis unfolding scan_bound_def by blast
  qed
  have P: "JSONObject_pairs n depth s5 ps = JSONObject_pairs m' depth s5 ps"
    if "object_key s = Inr (key, s2)" "scan_once m' depth s2 = Inr (val, s3)"
      "object_delimiter s3 = Inr (True, s5)" for key s2 val s3 s5 ps
  proof -
    from object_key_shorter [OF that(1)] scan_once_shorter [OF that(2)]
      object_delimiter_shorter [OF that(3)] f m
    have "2 * length s5 < n" "2 * length s5 < m'" by simp_all
    with p show ?thesis unfolding pairs_bound_def by blast
  qed
  show "JSONObject_pairs (Suc n) depth s pairs = JSONObject_pairs m depth s pairs"
    unfolding m by (simp add: S P split: sum.splits prod.splits)
qed

lemma values_bound_step:
  assumes sc: "scan_bound n" and a: "values_bound n"
  shows "values_bound (Suc n)"
  unfolding values_bound_def
proof (intro allI impI)
  fix m depth "values" and s :: string
  assume f: "2 * length s + 1 < Suc n" "2 * length s + 1 < m"
  then obtain m' where m: "m = Suc m'" by (cases m) auto
  have S: "scan_once n depth s = scan_once m' depth s"
  proof -
    from f m have "2 * length s < n" "2 * length s < m'" by simp_all
    with sc show ?thesis unfolding scan_bound_def by blast
  qed
  have A: "JSONArray_values n depth s2 vs = JSONArray_values m' depth s2 vs"
    if "scan_once m' depth s = Inr (val, s1)" "array_delimiter s1 = Inr (True, s2)"
    for val s1 s2 vs
  proof -
    from scan_once_shorter [OF that(1)] array_delimiter_shorter [OF that(2)] f m
    have "2 * length s2 + 1 < n" "2 * length s2 + 1 < m'" by simp_all
    with a show ?thesis unfolding values_bound_def by blast
  qed
  show "JSONArray_values (Suc n) depth s values = JSONArray_values m depth s values"
    unfolding m by (simp add: S A split: sum.splits prod.splits)
qed

lemma parser_bound: "scan_bound n \<and> pairs_bound n \<and> values_bound n"
proof (induction n)
  case 0
  show ?case by (simp add: scan_bound_def pairs_bound_def values_bound_def)
next
  case (Suc n)
  then show ?case using scan_bound_step pairs_bound_step values_bound_step by blast
qed

text \<open>
  A first argument above twice the length of the text is never used up: every larger one
  gives the same result, so \<open>JSONDecoder_decode\<close> is \<open>scan_once\<close> without that bound.
\<close>

lemma scan_once_bound:
  "2 * length s < n \<Longrightarrow> 2 * length s < m \<Longrightarrow> scan_once n depth s = scan_once m depth s"
  using parser_bound [of n] unfolding scan_bound_def by blast

subsection \<open>Texts that are not values\<close>








text \<open>
  Texts beyond the limits. An opening bracket with no nested call left raises
  \<open>RecursionError\<close>, whatever follows. An integer of 4301 digits raises \<open>ValueError\<close>,
  here with garbage after it, so the text is not a JSON text either.
\<close>

lemma decode_no_depth:
  "JSONDecoder_decode 0 (CHR ''['' # t) = Inl RecursionError"
  by (simp add: JSONDecoder_decode_def skip_ws_def is_ws_def)

lemma takeWhile_replicate_append:
  "P c \<Longrightarrow> takeWhile P (replicate n c @ ys) = replicate n c @ takeWhile P ys"
  by (induction n) simp_all

lemma dropWhile_replicate_append:
  "P c \<Longrightarrow> dropWhile P (replicate n c @ ys) = dropWhile P ys"
  by (induction n) simp_all

lemma long_integer_raises_ValueError:
  "json_loads (replicate 4301 (CHR ''1'') @ '' x'') = Inl ValueError"
proof -
  let ?t = "replicate 4301 (CHR ''1'') @ '' x''"
  have d: "is_digit (CHR ''1'')" "\<not> is_digit (CHR '' '')" "\<not> is_ws (CHR ''1'')"
    by (simp_all add: is_digit_def is_ws_def)
  have r: "?t = CHR ''1'' # replicate 4300 (CHR ''1'') @ '' x''"
    by (simp add: replicate_Suc [symmetric] del: replicate_Suc)
  have tw: "takeWhile is_digit (replicate 4300 (CHR ''1'') @ '' x'') = replicate 4300 (CHR ''1'')"
    using d by (simp add: takeWhile_replicate_append)
  have dw: "dropWhile is_digit (replicate 4300 (CHR ''1'') @ '' x'') = '' x''"
    using d by (simp add: dropWhile_replicate_append)
  have mi: "match_integer ?t = Some (replicate 4301 (CHR ''1''), '' x'')"
    unfolding r using d tw dw
    by (simp add: match_integer_def Let_def replicate_Suc [symmetric] del: replicate_Suc)
  have mn: "match_number ?t = Some ((replicate 4301 (CHR ''1''), [], []), '' x'')"
    by (simp add: match_number_def mi match_frac_def match_exp_def)
  have pi: "parse_int (replicate 4301 (CHR ''1'')) = Inl ValueError"
    by (simp add: parse_int_def int_max_str_digits_def Let_def)
  have sn: "scan_number ?t = Some (Inl ValueError)"
    by (simp add: scan_number_def mn pi)
  have sl: "scan_literal ?t = Inl ValueError"
    unfolding scan_literal_def sn by (simp add: r)
  have sk: "skip_ws ?t = ?t"
    unfolding r using d by (simp add: skip_ws_def)
  have "scan_once (Suc (2 * length ?t + 1)) recursion_limit ?t = Inl ValueError"
    unfolding scan_once.simps using sl by (simp add: r)
  then show ?thesis
    by (simp add: json_loads_def JSONDecoder_decode_def sk)
qed




end
